theory Spec2Isabelle
  imports Complex_Main "HOL-Library.Char_ord" "HOL-Library.List_Lexorder"
begin

section \<open>CronGuard: the monitor status model\<close>

text \<open>
  A shallow embedding of the status logic of CronGuard: \<open>lib/types.ts\<close> (schedule parser and
  status function), \<open>lib/db.ts\<close> (the SQL statements), \<open>lib/storage.ts\<close> (the storage
  operations), \<open>lib/rate-limit.ts\<close>, the route \<open>api/ping/[id]\<close> and the dashboard's
  \<open>buildPingDisplay\<close>.

  Conventions.
  \<^item> Clock readings, grace periods, durations and counters are modelled as \<open>int\<close>; the model
    agrees with the doubles of the code as long as the values stay below \<open>2^53\<close>. The
    interval of a monitor is a \<open>js_number\<close>: the schedule parser produces it from text of any
    length, so its rounding to a double and \<open>Infinity\<close> are modelled.
  \<^item> The schedule, whose characters the parser reads, is a \<open>jsstring\<close>: the list of the UTF-16
    code units of the JavaScript string. Texts that the code only stores, compares or sends
    (ids, names, timestamps, messages, header values) are \<open>string\<close>; the characters of a
    header value are read as the code units 0 to 255.
  \<^item> Timestamps are stored as ISO-8601 text, as the code stores them. The clock is an input:
    a reading of \<open>Date.now()\<close> is an \<open>int\<close> parameter (milliseconds), a reading of
    \<open>new Date().toISOString()\<close> is a \<open>string\<close> parameter, and \<open>new Date(s).getTime()\<close> is
    the parameter \<open>parseDate\<close>, whose value \<open>None\<close> stands for \<open>NaN\<close>.
  \<^item> \<open>generateId()\<close> (\<open>crypto.randomUUID()\<close>) is an input as well: the generated text.
\<close>

subsection \<open>Data (lib/types.ts)\<close>

type_synonym jsstring = "int list"

text \<open>The code units of a text written in this file.\<close>

definition lit :: "string \<Rightarrow> jsstring" where
  "lit s = map of_char s"

text \<open>
  A JavaScript number whose finite values are integers: the result of \<open>parseInt\<close> on
  digits, of a product of such numbers, and of a division of two integers after
  \<open>Math.floor\<close> or \<open>Math.ceil\<close>.
\<close>

datatype js_number = Finite int | PosInfinity | NegInfinity | NaN

datatype monitor_status = Healthy | Late | Down | Paused

datatype ping_status = Success | Failure

record Ping =
  ping_id :: string
  timestamp :: string
  status :: ping_status
  duration :: "int option"
  message :: "string option"
  ip :: "string option"

record Monitor =
  monitor_id :: string
  name :: string
  schedule :: jsstring
  intervalMinutes :: "js_number option"
  graceMinutes :: int
  monitor_status :: monitor_status
  lastPing :: "string option"
  nextExpected :: "string option"
  pings :: "Ping list"
  createdAt :: string
  paused :: bool
  pausedAt :: "string option"
  pausedUntil :: "string option"
  pauseReason :: "string option"

subsection \<open>String primitives\<close>

text \<open>
  \<open>String.prototype.toLowerCase\<close>, code unit by code unit. \<open>A-Z\<close> become \<open>a-z\<close>, the Kelvin
  sign U+212A becomes \<open>k\<close> and U+0130 becomes \<open>i\<close> followed by U+0307: these are the only
  characters whose lower case contains an ASCII character. Every other code unit is left as
  it is; JavaScript turns further letters outside ASCII into other letters outside ASCII,
  one for one, which no test of the parser tells apart (its patterns consist of ASCII
  letters, digits and white space, and white space has no case).
\<close>

definition toLowerCase_unit :: "int \<Rightarrow> jsstring" where
  "toLowerCase_unit c =
     (if 65 \<le> c \<and> c \<le> 90 then [c + 32]
      else if c = 8490 then [107]
      else if c = 304 then [105, 775]
      else [c])"

definition toLowerCase :: "jsstring \<Rightarrow> jsstring" where
  "toLowerCase s = concat (map toLowerCase_unit s)"

text \<open>
  The white space of \<open>\s\<close> and of \<open>String.prototype.trim\<close>: tab, line feed, vertical tab,
  form feed, carriage return, space, U+00A0, U+1680, U+2000 to U+200A, U+2028, U+2029,
  U+202F, U+205F, U+3000 and U+FEFF.
\<close>

definition isSpace :: "int \<Rightarrow> bool" where
  "isSpace c =
     (c \<in> {9, 10, 11, 12, 13, 32, 160, 5760, 8232, 8233, 8239, 8287, 12288, 65279}
      \<or> (8192 \<le> c \<and> c \<le> 8202))"

definition isDigit :: "int \<Rightarrow> bool" where
  "isDigit c = (48 \<le> c \<and> c \<le> 57)"

definition digitValue :: "int \<Rightarrow> int" where
  "digitValue c = c - 48"

text \<open>The integer that a run of decimal digits denotes.\<close>

definition digitsValue :: "jsstring \<Rightarrow> int" where
  "digitsValue ds = foldl (\<lambda>a c. 10 * a + digitValue c) 0 ds"

text \<open>
  The Number value of an integer that is not negative: the nearest double, a tie going to
  the even mantissa, and \<open>Infinity\<close> from \<open>2^1024\<close> on. \<open>bitLength n\<close> is the number of binary
  digits of \<open>n\<close>; an integer below \<open>2^53\<close> is a double as it stands.
\<close>

function bitLength :: "int \<Rightarrow> nat" where
  "bitLength n = (if n \<le> 0 then 0 else Suc (bitLength (n div 2)))"
  by pat_completeness auto
termination
  by (relation "measure nat") auto

declare bitLength.simps [simp del]

definition toDouble :: "int \<Rightarrow> js_number" where
  "toDouble n =
     (if n < 2 ^ 53 then Finite n
      else (let e = bitLength n - 53;
                q = n div 2 ^ e;
                r = n mod 2 ^ e;
                half = 2 ^ (e - 1);
                q' = (if r > half \<or> (r = half \<and> odd q) then q + 1 else q);
                v = q' * 2 ^ e
            in if v \<ge> 2 ^ 1024 then PosInfinity else Finite v))"

text \<open>
  \<open>parseInt\<close> on the text of a \<open>(\d+)\<close> group: decimal digits only. (Beyond twenty
  significant digits the language standard lets an implementation replace digits by zero
  before rounding; the nearest double is what V8 returns.)
\<close>

definition parseInt :: "jsstring \<Rightarrow> js_number" where
  "parseInt ds = toDouble (digitsValue ds)"

text \<open>
  \<open>x * 60\<close> for the result of \<open>parseInt\<close>, which is not negative: the product, rounded to
  a double.
\<close>

definition times60 :: "js_number \<Rightarrow> js_number" where
  "times60 x =
     (case x of
        Finite a \<Rightarrow> toDouble (a * 60)
      | PosInfinity \<Rightarrow> PosInfinity
      | NegInfinity \<Rightarrow> NegInfinity
      | NaN \<Rightarrow> NaN)"

text \<open>\<open>stripPrefix p s\<close>: the rest of \<open>s\<close> after the literal \<open>p\<close>, if \<open>s\<close> starts with it.\<close>

fun stripPrefix :: "'a list \<Rightarrow> 'a list \<Rightarrow> 'a list option" where
  "stripPrefix [] s = Some s"
| "stripPrefix (p # ps) [] = None"
| "stripPrefix (p # ps) (c # cs) = (if p = c then stripPrefix ps cs else None)"

text \<open>\<open>String.prototype.includes\<close>.\<close>

fun includes_str :: "'a list \<Rightarrow> 'a list \<Rightarrow> bool" where
  "includes_str [] sub = (sub = [])"
| "includes_str (c # cs) sub = (stripPrefix sub (c # cs) \<noteq> None \<or> includes_str cs sub)"

text \<open>
  The regular expressions \<open>/every\s+(\d+)\s*min/\<close> and \<open>/every\s+(\d+)\s*hour/\<close>, with the unit
  as a parameter. \<open>matchEveryAt\<close> matches at the start of the text and returns the group
  \<open>(\d+)\<close>. The greedy runs are the only way to match: after \<open>\s+\<close> a digit must follow, after
  \<open>\d+\<close> white space or the unit's first letter, after \<open>\s*\<close> the unit, so giving a character
  back never helps. \<open>matchEvery\<close> is \<open>String.prototype.match\<close>: the leftmost position wins.
  That these two functions find a match exactly when the text has one is proved below
  (\<open>matchEvery_sound\<close>, \<open>matchEvery_complete\<close>).
\<close>

definition matchEveryAt :: "jsstring \<Rightarrow> jsstring \<Rightarrow> jsstring option" where
  "matchEveryAt unit s =
     (case stripPrefix (lit ''every'') s of
        None \<Rightarrow> None
      | Some r1 \<Rightarrow>
          (let ws = takeWhile isSpace r1; r2 = dropWhile isSpace r1;
               ds = takeWhile isDigit r2; r3 = dropWhile isDigit r2;
               r4 = dropWhile isSpace r3
           in if ws \<noteq> [] \<and> ds \<noteq> [] \<and> stripPrefix unit r4 \<noteq> None then Some ds else None))"

fun matchEvery :: "jsstring \<Rightarrow> jsstring \<Rightarrow> jsstring option" where
  "matchEvery unit [] = None"
| "matchEvery unit (c # cs) =
     (case matchEveryAt unit (c # cs) of Some ds \<Rightarrow> Some ds | None \<Rightarrow> matchEvery unit cs)"

subsection \<open>Schedule parser (lib/types.ts, parseScheduleInterval)\<close>

definition parseScheduleInterval :: "jsstring \<Rightarrow> js_number" where
  "parseScheduleInterval sched =
     (let lower = toLowerCase sched in
      case matchEvery (lit ''min'') lower of
        Some ds \<Rightarrow> parseInt ds
      | None \<Rightarrow>
          if includes_str lower (lit ''every minute'') then Finite 1
          else (case matchEvery (lit ''hour'') lower of
                  Some ds \<Rightarrow> times60 (parseInt ds)
                | None \<Rightarrow>
                    if includes_str lower (lit ''every hour'') then Finite 60
                    else if includes_str lower (lit ''every day'')
                            \<or> includes_str lower (lit ''daily'') then Finite (24 * 60)
                    else if includes_str lower (lit ''every week'')
                            \<or> includes_str lower (lit ''weekly'') then Finite (7 * 24 * 60)
                    else Finite (24 * 60)))"

subsection \<open>The patterns, as the regular expressions define them\<close>





subsection \<open>Status function (lib/types.ts, getMonitorStatus)\<close>

text \<open>
  \<open>a || b\<close> on the optional number \<open>intervalMinutes\<close>: \<open>undefined\<close>, \<open>0\<close> and \<open>NaN\<close> are falsy.
\<close>

definition intervalOrParsed :: "Monitor \<Rightarrow> js_number" where
  "intervalOrParsed monitor =
     (case intervalMinutes monitor of
        Some i \<Rightarrow> if i \<noteq> Finite 0 \<and> i \<noteq> NaN then i
                  else parseScheduleInterval (schedule monitor)
      | None \<Rightarrow> parseScheduleInterval (schedule monitor))"

text \<open>
  \<open>intervalMinutes * 60 * 1000\<close>. The product of a finite interval is computed exactly, as
  are the sums and differences of times below. The times of a \<open>Date\<close> are integers below
  \<open>2^53\<close> in absolute value, for which the arithmetic of doubles is exact as long as the
  results stay below \<open>2^53\<close>.
\<close>

definition minutesToMs :: "js_number \<Rightarrow> js_number" where
  "minutesToMs x =
     (case x of
        Finite i \<Rightarrow> Finite (i * 60 * 1000)
      | PosInfinity \<Rightarrow> PosInfinity
      | NegInfinity \<Rightarrow> NegInfinity
      | NaN \<Rightarrow> NaN)"

text \<open>
  \<open>now\<close> is the reading of \<open>Date.now()\<close>. A \<open>lastPing\<close> that is \<open>null\<close> or the empty text is
  falsy; one that does not parse gives \<open>NaN\<close>, every comparison with it is false and the
  function falls through to \<open>healthy\<close>. With an interval of \<open>Infinity\<close> the time since the
  expected ping is \<open>-Infinity\<close> and both tests fail; with \<open>-Infinity\<close> it is \<open>Infinity\<close> and the
  first test holds.
\<close>

definition getMonitorStatus :: "(string \<Rightarrow> int option) \<Rightarrow> int \<Rightarrow> Monitor \<Rightarrow> monitor_status" where
  "getMonitorStatus parseDate now monitor =
     (if paused monitor then
        (case pausedUntil monitor of
           None \<Rightarrow> Paused
         | Some u \<Rightarrow>
             if u \<noteq> [] \<and> (case parseDate u of None \<Rightarrow> False | Some resumeTime \<Rightarrow> now \<ge> resumeTime)
             then Paused
             else Paused)
      else
        (case lastPing monitor of
           None \<Rightarrow> Down
         | Some lp \<Rightarrow>
             if lp = [] then Down
             else (case parseDate lp of
                     None \<Rightarrow> Healthy
                   | Some lastPingTime \<Rightarrow>
                       (let graceMs = graceMinutes monitor * 60 * 1000
                        in case minutesToMs (intervalOrParsed monitor) of
                             Finite intervalMs \<Rightarrow>
                               (let expectedNextPing = lastPingTime + intervalMs;
                                    timeSinceExpected = now - expectedNextPing
                                in if timeSinceExpected > graceMs then Down
                                   else if timeSinceExpected > 0 then Late
                                   else Healthy)
                           | PosInfinity \<Rightarrow> Healthy
                           | NegInfinity \<Rightarrow> Down
                           | NaN \<Rightarrow> Healthy))))"

subsection \<open>Tables and statements (lib/db.ts)\<close>

text \<open>
  The two tables, each a list of rows in insertion order. \<open>paused_col\<close> is the INTEGER column
  \<open>paused\<close>. A statement that can violate a constraint (PRIMARY KEY, FOREIGN KEY) returns
  the error that better-sqlite3 throws; an UPDATE changes every row that its WHERE selects.
  The two statements that \<open>recordPing\<close> runs in its transaction take one more argument,
  \<open>fault\<close>: a failure that the engine reports for this run of the statement, if any. It is
  an input, like the clock.
\<close>

record MonitorRow =
  row_id :: string
  row_name :: string
  row_schedule :: jsstring
  interval_minutes :: js_number
  grace_minutes :: int
  last_ping :: "string option"
  created_at :: string
  paused_col :: int
  paused_at :: "string option"
  paused_until :: "string option"
  pause_reason :: "string option"

record PingRow =
  pr_id :: string
  pr_monitor_id :: string
  pr_timestamp :: string
  pr_status :: ping_status
  pr_duration :: "int option"
  pr_message :: "string option"
  pr_ip :: "string option"

record database =
  monitors :: "MonitorRow list"
  pings_table :: "PingRow list"

text \<open>
  The errors that better-sqlite3 throws: a violated constraint, and the failures of the
  engine that do not depend on the stored data (database full, I/O error, database busy).
\<close>

datatype db_error = SqliteConstraint | SqliteFull | SqliteIoErr | SqliteBusy

text \<open>\<open>SELECT ... FROM monitors WHERE id = ?\<close>, read with \<open>.get\<close>.\<close>

definition stmt_getMonitor :: "string \<Rightarrow> database \<Rightarrow> MonitorRow option" where
  "stmt_getMonitor i db = find (\<lambda>r. row_id r = i) (monitors db)"

text \<open>
  \<open>SELECT ... FROM pings WHERE monitor_id = ? ORDER BY timestamp DESC LIMIT 75\<close>; the
  timestamps are TEXT and compare as text. Rows of equal timestamp come in insertion
  order, as SQLite returns them: the sort is stable, on the reversed table, and reversed.
\<close>

definition stmt_getPingsForMonitor :: "string \<Rightarrow> database \<Rightarrow> PingRow list" where
  "stmt_getPingsForMonitor i db =
     take 75
       (rev (sort_key pr_timestamp (rev (filter (\<lambda>p. pr_monitor_id p = i) (pings_table db)))))"

definition stmt_insertMonitor :: "MonitorRow \<Rightarrow> database \<Rightarrow> db_error + database" where
  "stmt_insertMonitor row db =
     (if row_id row \<in> set (map row_id (monitors db)) then Inl SqliteConstraint
      else Inr (db\<lparr>monitors := monitors db @ [row]\<rparr>))"

text \<open>
  \<open>UPDATE monitors SET name, schedule, interval_minutes, grace_minutes, last_ping, paused,
  paused_at, paused_until, pause_reason WHERE id = @id\<close>; the row argument carries the
  bound values.
\<close>

definition stmt_updateMonitor :: "MonitorRow \<Rightarrow> database \<Rightarrow> database" where
  "stmt_updateMonitor d db =
     db\<lparr>monitors :=
          map (\<lambda>r. if row_id r = row_id d
                    then r\<lparr>row_name := row_name d, row_schedule := row_schedule d,
                           interval_minutes := interval_minutes d,
                           grace_minutes := grace_minutes d, last_ping := last_ping d,
                           paused_col := paused_col d, paused_at := paused_at d,
                           paused_until := paused_until d, pause_reason := pause_reason d\<rparr>
                    else r)
              (monitors db)\<rparr>"

definition stmt_insertPing ::
  "db_error option \<Rightarrow> PingRow \<Rightarrow> database \<Rightarrow> db_error + database" where
  "stmt_insertPing fault row db =
     (case fault of
        Some e \<Rightarrow> Inl e
      | None \<Rightarrow>
          if pr_id row \<in> set (map pr_id (pings_table db)) then Inl SqliteConstraint
          else if pr_monitor_id row \<notin> set (map row_id (monitors db)) then Inl SqliteConstraint
          else Inr (db\<lparr>pings_table := pings_table db @ [row]\<rparr>))"

text \<open>
  \<open>UPDATE monitors SET last_ping = ? WHERE id = ?\<close>. No constraint stands in its way; it
  fails when the engine does.
\<close>

definition lastPingWritten :: "string \<Rightarrow> string \<Rightarrow> database \<Rightarrow> database" where
  "lastPingWritten ts i db =
     db\<lparr>monitors := map (\<lambda>r. if row_id r = i then r\<lparr>last_ping := Some ts\<rparr> else r) (monitors db)\<rparr>"

definition stmt_updateMonitorLastPing ::
  "db_error option \<Rightarrow> string \<Rightarrow> string \<Rightarrow> database \<Rightarrow> db_error + database" where
  "stmt_updateMonitorLastPing fault ts i db =
     (case fault of Some e \<Rightarrow> Inl e | None \<Rightarrow> Inr (lastPingWritten ts i db))"

text \<open>
  \<open>UPDATE monitors SET paused = 1, paused_at = @pausedAt, paused_until = @pausedUntil,
  pause_reason = @pauseReason WHERE id = @id\<close>.
\<close>

definition stmt_pauseMonitor ::
  "string \<Rightarrow> string \<Rightarrow> string option \<Rightarrow> string option \<Rightarrow> database \<Rightarrow> database" where
  "stmt_pauseMonitor i pAt pUntil pReason db =
     db\<lparr>monitors :=
          map (\<lambda>r. if row_id r = i
                    then r\<lparr>paused_col := 1, paused_at := Some pAt, paused_until := pUntil,
                           pause_reason := pReason\<rparr>
                    else r)
              (monitors db)\<rparr>"

text \<open>
  \<open>UPDATE monitors SET paused = 0, paused_at = NULL, paused_until = NULL,
  pause_reason = NULL WHERE id = ?\<close>.
\<close>

definition resumeRow :: "MonitorRow \<Rightarrow> MonitorRow" where
  "resumeRow r = r\<lparr>paused_col := 0, paused_at := None, paused_until := None, pause_reason := None\<rparr>"

definition stmt_resumeMonitor :: "string \<Rightarrow> database \<Rightarrow> database" where
  "stmt_resumeMonitor i db =
     db\<lparr>monitors := map (\<lambda>r. if row_id r = i then resumeRow r else r) (monitors db)\<rparr>"

text \<open>
  \<open>SELECT id FROM monitors WHERE paused = 1 AND paused_until IS NOT NULL AND
  paused_until <= ?\<close>. The comparison is SQLite's comparison of TEXT values: byte by byte,
  a proper prefix being smaller, which is the order of \<open>string\<close> here.
\<close>

definition dueForResume :: "string \<Rightarrow> MonitorRow \<Rightarrow> bool" where
  "dueForResume now r =
     (paused_col r = 1 \<and> (case paused_until r of None \<Rightarrow> False | Some u \<Rightarrow> u \<le> now))"

definition stmt_getPausedMonitorsToResume :: "string \<Rightarrow> database \<Rightarrow> string list" where
  "stmt_getPausedMonitorsToResume now db = map row_id (filter (dueForResume now) (monitors db))"

text \<open>
  \<open>db.transaction(f)()\<close>: \<open>f\<close> runs on the database; when it throws, the database is rolled
  back to what it was and the error is thrown on. A computation returns its outcome together
  with the database it leaves behind: \<open>run_stmt\<close> leaves it unchanged when the statement
  throws, and a sequence of statements that throws half way leaves what the statements
  before have written, unless a transaction takes it back.
\<close>

definition run_stmt ::
  "(database \<Rightarrow> db_error + database) \<Rightarrow> database \<Rightarrow> (db_error + unit) \<times> database" where
  "run_stmt stmt db = (case stmt db of Inl e \<Rightarrow> (Inl e, db) | Inr db' \<Rightarrow> (Inr (), db'))"

definition transaction ::
  "(database \<Rightarrow> (db_error + unit) \<times> database) \<Rightarrow> database \<Rightarrow> (db_error + unit) \<times> database" where
  "transaction f db = (case f db of (Inl e, db') \<Rightarrow> (Inl e, db) | (Inr u, db') \<Rightarrow> (Inr u, db'))"

subsection \<open>Storage operations (lib/storage.ts)\<close>

definition rowToMonitor ::
  "(string \<Rightarrow> int option) \<Rightarrow> int \<Rightarrow> MonitorRow \<Rightarrow> Ping list \<Rightarrow> Monitor" where
  "rowToMonitor parseDate now row ps =
     (let monitor =
        \<lparr>monitor_id = row_id row, name = row_name row, schedule = row_schedule row,
         intervalMinutes = Some (interval_minutes row), graceMinutes = grace_minutes row,
         monitor_status = Down, lastPing = last_ping row, nextExpected = None, pings = ps,
         createdAt = created_at row, paused = (paused_col row = 1), pausedAt = paused_at row,
         pausedUntil = paused_until row, pauseReason = pause_reason row\<rparr>
      in monitor\<lparr>monitor_status := getMonitorStatus parseDate now monitor\<rparr>)"

definition rowToPing :: "PingRow \<Rightarrow> Ping" where
  "rowToPing row =
     \<lparr>ping_id = pr_id row, timestamp = pr_timestamp row, status = pr_status row,
      duration = pr_duration row, message = pr_message row, ip = pr_ip row\<rparr>"

definition getMonitor ::
  "(string \<Rightarrow> int option) \<Rightarrow> int \<Rightarrow> string \<Rightarrow> database \<Rightarrow> Monitor option" where
  "getMonitor parseDate now i db =
     (case stmt_getMonitor i db of
        None \<Rightarrow> None
      | Some row \<Rightarrow> Some (rowToMonitor parseDate now row (map rowToPing (stmt_getPingsForMonitor i db))))"

text \<open>
  \<open>createMonitor(name, schedule, graceMinutes = 15)\<close>; \<open>uuid\<close> is what \<open>generateId()\<close> returns
  and \<open>nowIso\<close> the reading of the clock.
\<close>

definition createMonitor ::
  "string \<Rightarrow> string \<Rightarrow> string \<Rightarrow> jsstring \<Rightarrow> int option \<Rightarrow> database
     \<Rightarrow> (db_error + Monitor) \<times> database" where
  "createMonitor uuid nowIso nm sched graceOpt db =
     (let grace = (case graceOpt of None \<Rightarrow> 15 | Some g \<Rightarrow> g);
          interval = parseScheduleInterval sched
      in case stmt_insertMonitor
                \<lparr>row_id = uuid, row_name = nm, row_schedule = sched, interval_minutes = interval,
                 grace_minutes = grace, last_ping = None, created_at = nowIso, paused_col = 0,
                 paused_at = None, paused_until = None, pause_reason = None\<rparr> db of
           Inl e \<Rightarrow> (Inl e, db)
         | Inr db' \<Rightarrow>
             (Inr \<lparr>monitor_id = uuid, name = nm, schedule = sched,
                   intervalMinutes = Some interval, graceMinutes = grace, monitor_status = Down,
                   lastPing = None, nextExpected = None, pings = [], createdAt = nowIso,
                   paused = False, pausedAt = None, pausedUntil = None, pauseReason = None\<rparr>,
              db'))"

text \<open>
  The fields of \<open>Partial<Monitor>\<close> that \<open>updateMonitor\<close> reads; \<open>None\<close> is a field that is
  absent or \<open>null\<close> (\<open>??\<close> treats both alike).
\<close>

record MonitorUpdates =
  u_name :: "string option"
  u_schedule :: "jsstring option"
  u_graceMinutes :: "int option"
  u_lastPing :: "string option"
  u_paused :: "bool option"
  u_pausedAt :: "string option"
  u_pausedUntil :: "string option"
  u_pauseReason :: "string option"

definition orElse :: "'a option \<Rightarrow> 'a \<Rightarrow> 'a" where
  "orElse a b = (case a of Some x \<Rightarrow> x | None \<Rightarrow> b)"

definition orElseOpt :: "'a option \<Rightarrow> 'a option \<Rightarrow> 'a option" where
  "orElseOpt a b = (case a of Some x \<Rightarrow> Some x | None \<Rightarrow> b)"

text \<open>
  \<open>now0\<close> and \<open>now1\<close> are the clock readings of the two \<open>getMonitor\<close> calls. The interval of
  the existing monitor always comes from its row; were it absent, the NOT NULL column
  would reject the update.
\<close>

definition updateMonitor ::
  "(string \<Rightarrow> int option) \<Rightarrow> int \<Rightarrow> int \<Rightarrow> string \<Rightarrow> MonitorUpdates \<Rightarrow> database
     \<Rightarrow> (db_error + Monitor option) \<times> database" where
  "updateMonitor parseDate now0 now1 i updates db =
     (case getMonitor parseDate now0 i db of
        None \<Rightarrow> (Inr None, db)
      | Some existing \<Rightarrow>
          (let sched = orElse (u_schedule updates) (schedule existing);
               interval =
                 (case u_schedule updates of
                    Some s \<Rightarrow> if s \<noteq> [] then Some (parseScheduleInterval s)
                              else intervalMinutes existing
                  | None \<Rightarrow> intervalMinutes existing)
           in case interval of
                None \<Rightarrow> (Inl SqliteConstraint, db)
              | Some iv \<Rightarrow>
                  (let db' = stmt_updateMonitor
                        \<lparr>row_id = i, row_name = orElse (u_name updates) (name existing),
                         row_schedule = sched, interval_minutes = iv,
                         grace_minutes = orElse (u_graceMinutes updates) (graceMinutes existing),
                         last_ping = orElseOpt (u_lastPing updates) (lastPing existing),
                         created_at = createdAt existing,
                         paused_col = (if orElse (u_paused updates) (paused existing) then 1 else 0),
                         paused_at = orElseOpt (u_pausedAt updates) (pausedAt existing),
                         paused_until = orElseOpt (u_pausedUntil updates) (pausedUntil existing),
                         pause_reason = orElseOpt (u_pauseReason updates) (pauseReason existing)\<rparr>
                        db
                   in (Inr (getMonitor parseDate now1 i db'), db'))))"

text \<open>
  What the engine reports for the two writes of one call of \<open>recordPing\<close>.
\<close>

record StorageFaults =
  insertPing_fault :: "db_error option"
  updateLastPing_fault :: "db_error option"

definition noFaults :: StorageFaults where
  "noFaults = \<lparr>insertPing_fault = None, updateLastPing_fault = None\<rparr>"

text \<open>
  \<open>recordPing(id, success = true, duration?, message?, ip?)\<close>: \<open>null\<close> for an unknown
  monitor, otherwise the ping, written in one transaction with the monitor's
  \<open>last_ping\<close>.
\<close>

definition recordPing ::
  "StorageFaults \<Rightarrow> string \<Rightarrow> string \<Rightarrow> string \<Rightarrow> bool \<Rightarrow> int option \<Rightarrow> string option
     \<Rightarrow> string option \<Rightarrow> database \<Rightarrow> (db_error + Ping option) \<times> database" where
  "recordPing faults uuid nowIso i success dur msg ipAddr db =
     (case stmt_getMonitor i db of
        None \<Rightarrow> (Inr None, db)
      | Some monitorRow \<Rightarrow>
          (let ping = \<lparr>ping_id = uuid, timestamp = nowIso,
                       status = (if success then Success else Failure),
                       duration = dur, message = msg, ip = ipAddr\<rparr>
           in case transaction
                     (\<lambda>d. case run_stmt
                                  (stmt_insertPing (insertPing_fault faults)
                                     \<lparr>pr_id = ping_id ping, pr_monitor_id = i,
                                      pr_timestamp = timestamp ping, pr_status = status ping,
                                      pr_duration = duration ping, pr_message = message ping,
                                      pr_ip = ip ping\<rparr>) d of
                             (Inl e, d1) \<Rightarrow> (Inl e, d1)
                           | (Inr u, d1) \<Rightarrow>
                               run_stmt
                                 (stmt_updateMonitorLastPing (updateLastPing_fault faults)
                                    (timestamp ping) i) d1)
                     db of
                (Inl e, db') \<Rightarrow> (Inl e, db')
              | (Inr u, db') \<Rightarrow> (Inr (Some ping), db')))"

text \<open>
  \<open>pauseMonitor(id, reason?, until?)\<close>; \<open>nowIso\<close> is the clock reading stored in
  \<open>paused_at\<close>.
\<close>

definition pauseMonitor ::
  "(string \<Rightarrow> int option) \<Rightarrow> int \<Rightarrow> int \<Rightarrow> string \<Rightarrow> string \<Rightarrow> string option \<Rightarrow> string option
     \<Rightarrow> database \<Rightarrow> Monitor option \<times> database" where
  "pauseMonitor parseDate now0 now1 nowIso i reason until db =
     (case getMonitor parseDate now0 i db of
        None \<Rightarrow> (None, db)
      | Some existing \<Rightarrow>
          (let db' = stmt_pauseMonitor i nowIso until reason db
           in (getMonitor parseDate now1 i db', db')))"

definition resumeMonitor ::
  "(string \<Rightarrow> int option) \<Rightarrow> int \<Rightarrow> int \<Rightarrow> string \<Rightarrow> database \<Rightarrow> Monitor option \<times> database" where
  "resumeMonitor parseDate now0 now1 i db =
     (case getMonitor parseDate now0 i db of
        None \<Rightarrow> (None, db)
      | Some existing \<Rightarrow>
          (let db' = stmt_resumeMonitor i db in (getMonitor parseDate now1 i db', db')))"

text \<open>The loop of \<open>checkAndResumeMonitors\<close> over the selected ids.\<close>

fun resumeEach :: "string list \<Rightarrow> string list \<Rightarrow> database \<Rightarrow> string list \<times> database" where
  "resumeEach [] resumed db = (resumed, db)"
| "resumeEach (i # is) resumed db = resumeEach is (resumed @ [i]) (stmt_resumeMonitor i db)"

definition checkAndResumeMonitors :: "string \<Rightarrow> database \<Rightarrow> string list \<times> database" where
  "checkAndResumeMonitors now db = resumeEach (stmt_getPausedMonitorsToResume now db) [] db"

subsection \<open>Rate limiter (lib/rate-limit.ts)\<close>

record RateLimitEntry =
  count :: int
  resetAt :: int

record RateLimitResult =
  allowed :: bool
  remaining :: int
  limit_resetAt :: int

type_synonym rateLimitMap = "string \<rightharpoonup> RateLimitEntry"

definition WINDOW_MS :: int where
  "WINDOW_MS = 60 * 1000"

definition MAX_REQUESTS_PER_WINDOW :: int where
  "MAX_REQUESTS_PER_WINDOW = 5"

text \<open>
  \<open>now\<close> is the reading of \<open>Date.now()\<close>. The periodic clean-up only deletes entries whose
  window has expired, which \<open>checkRateLimit\<close> treats like missing ones.
\<close>

definition checkRateLimit :: "int \<Rightarrow> string \<Rightarrow> rateLimitMap \<Rightarrow> RateLimitResult \<times> rateLimitMap" where
  "checkRateLimit now monitorId m =
     (let fresh = (\<lparr>allowed = True, remaining = MAX_REQUESTS_PER_WINDOW - 1,
                     limit_resetAt = now + WINDOW_MS\<rparr>,
                   m(monitorId \<mapsto> \<lparr>count = 1, resetAt = now + WINDOW_MS\<rparr>))
      in case m monitorId of
           None \<Rightarrow> fresh
         | Some entry \<Rightarrow>
             if resetAt entry < now then fresh
             else if count entry \<ge> MAX_REQUESTS_PER_WINDOW
               then (\<lparr>allowed = False, remaining = 0, limit_resetAt = resetAt entry\<rparr>, m)
             else (\<lparr>allowed = True,
                     remaining = MAX_REQUESTS_PER_WINDOW - (count entry + 1),
                     limit_resetAt = resetAt entry\<rparr>,
                   m(monitorId \<mapsto> entry\<lparr>count := count entry + 1\<rparr>)))"

subsection \<open>Ping route (app/api/ping/[id]/route.ts)\<close>

text \<open>
  A request carries its headers (names in lower case, as \<open>Headers.get\<close> looks them up) and,
  for POST, what reading the body gives: \<open>hasBody\<close> is the test
  \<open>contentLength && parseInt(contentLength) > 0\<close> on the content-length header, and
  \<open>parsedBody\<close> the outcome of \<open>request.json()\<close> followed by \<open>pingSchema.parse\<close>.
\<close>

datatype body_outcome =
  ValidBody bool "int option" "string option"
| ZodFailure
| JsonFailure

record PingRequest =
  req_headers :: "string \<rightharpoonup> string"
  hasBody :: bool
  parsedBody :: body_outcome

datatype header_value = Text string | Number int

datatype response_body =
  PlainBody string
| ErrorBody string
| PingBody "string option" string string monitor_status

record Response =
  code :: int
  body :: response_body
  headers :: "(string \<times> header_value) list"

text \<open>The clock readings and the generated id that one request consumes.\<close>

record PingEnv =
  t_start :: int
  t_limit :: int
  t_retry :: int
  t_status :: int
  t_end :: int
  env_uuid :: string
  env_nowIso :: string
  env_parseDate :: "string \<Rightarrow> int option"

text \<open>\<open>String.prototype.trim\<close> on a header value.\<close>

definition isSpaceChar :: "char \<Rightarrow> bool" where
  "isSpaceChar c = isSpace (of_char c)"

definition trim :: "string \<Rightarrow> string" where
  "trim s = rev (dropWhile isSpaceChar (rev (dropWhile isSpaceChar s)))"

text \<open>\<open>Math.ceil(a / b)\<close> for a divisor that is not zero.\<close>

definition ceilDiv :: "int \<Rightarrow> int \<Rightarrow> int" where
  "ceilDiv a b = - ((- a) div b)"

definition nonEmpty :: "string option \<Rightarrow> string option" where
  "nonEmpty v = (case v of None \<Rightarrow> None | Some x \<Rightarrow> if x = [] then None else Some x)"

definition getClientIp :: "(string \<rightharpoonup> string) \<Rightarrow> string option" where
  "getClientIp hdrs =
     (case nonEmpty (map_option (\<lambda>v. trim (takeWhile (\<lambda>c. c \<noteq> CHR '','') v))
                                (hdrs ''x-forwarded-for'')) of
        Some a \<Rightarrow> Some a
      | None \<Rightarrow> nonEmpty (hdrs ''x-real-ip''))"

definition rateLimitHeaders :: "int \<Rightarrow> int \<Rightarrow> (string \<times> header_value) list" where
  "rateLimitHeaders remain reset =
     [(''X-RateLimit-Remaining'', Number remain),
      (''X-RateLimit-Reset'', Number (ceilDiv reset 1000))]"

text \<open>
  A handler returns the response (or the error that \<open>recordPing\<close> threw) with the rate-limit
  map and the database it leaves behind. The handlers are modelled for the runs in which
  the engine reports no failure of its own; the violation of a constraint remains.
\<close>

definition GET_ping ::
  "PingEnv \<Rightarrow> PingRequest \<Rightarrow> string \<Rightarrow> rateLimitMap \<Rightarrow> database
     \<Rightarrow> (db_error + Response) \<times> rateLimitMap \<times> database" where
  "GET_ping env request i rl db =
     (let startTime = t_start env;
          (rateLimit, rl') = checkRateLimit (t_limit env) i rl
      in if \<not> allowed rateLimit then
           (Inr \<lparr>code = 429, body = PlainBody ''Rate limit exceeded'',
                 headers = [(''Content-Type'', Text ''text/plain''),
                            (''Retry-After'',
                               Number (ceilDiv (limit_resetAt rateLimit - t_retry env) 1000))]
                           @ rateLimitHeaders (remaining rateLimit) (limit_resetAt rateLimit)\<rparr>,
            rl', db)
         else
           (case getMonitor (env_parseDate env) (t_status env) i db of
              None \<Rightarrow>
                (Inr \<lparr>code = 404, body = ErrorBody ''Monitor not found'', headers = []\<rparr>, rl', db)
            | Some monitor \<Rightarrow>
                (let dur = t_end env - startTime;
                     ipAddr = getClientIp (req_headers request)
                 in case recordPing noFaults (env_uuid env) (env_nowIso env) i True (Some dur)
                           None ipAddr db of
                      (Inl e, db') \<Rightarrow> (Inl e, rl', db')
                    | (Inr ping, db') \<Rightarrow>
                        (Inr \<lparr>code = 200, body = PlainBody ''OK'',
                              headers = [(''Content-Type'', Text ''text/plain''),
                                         (''X-Ping-ID'',
                                            Text (case ping of None \<Rightarrow> [] | Some p \<Rightarrow> ping_id p))]
                                        @ rateLimitHeaders (remaining rateLimit)
                                            (limit_resetAt rateLimit)\<rparr>,
                         rl', db'))))"

definition POST_ping ::
  "PingEnv \<Rightarrow> PingRequest \<Rightarrow> string \<Rightarrow> rateLimitMap \<Rightarrow> database
     \<Rightarrow> (db_error + Response) \<times> rateLimitMap \<times> database" where
  "POST_ping env request i rl db =
     (let (rateLimit, rl') = checkRateLimit (t_limit env) i rl
      in if \<not> allowed rateLimit then
           (Inr \<lparr>code = 429, body = ErrorBody ''Rate limit exceeded'',
                 headers = [(''Retry-After'',
                               Number (ceilDiv (limit_resetAt rateLimit - t_retry env) 1000))]
                           @ rateLimitHeaders (remaining rateLimit) (limit_resetAt rateLimit)\<rparr>,
            rl', db)
         else
           (case getMonitor (env_parseDate env) (t_status env) i db of
              None \<Rightarrow>
                (Inr \<lparr>code = 404, body = ErrorBody ''Monitor not found'', headers = []\<rparr>, rl', db)
            | Some monitor \<Rightarrow>
                (case (if hasBody request then parsedBody request else ValidBody True None None) of
                   ZodFailure \<Rightarrow>
                     (Inr \<lparr>code = 400, body = ErrorBody ''Invalid request body'', headers = []\<rparr>,
                      rl', db)
                 | JsonFailure \<Rightarrow>
                     (Inr \<lparr>code = 400, body = ErrorBody ''Invalid JSON in request body'',
                           headers = []\<rparr>,
                      rl', db)
                 | ValidBody success dur msg \<Rightarrow>
                     (let ipAddr = getClientIp (req_headers request)
                      in case recordPing noFaults (env_uuid env) (env_nowIso env) i success dur
                                msg ipAddr db of
                           (Inl e, db') \<Rightarrow> (Inl e, rl', db')
                         | (Inr ping, db') \<Rightarrow>
                             (Inr \<lparr>code = 200,
                                   body = PingBody (map_option ping_id ping) (monitor_id monitor)
                                            (name monitor) (monitor_status monitor),
                                   headers = rateLimitHeaders (remaining rateLimit)
                                               (limit_resetAt rateLimit)\<rparr>,
                              rl', db')))))"

subsection \<open>Timeline (app/page.tsx, buildPingDisplay)\<close>

datatype DisplayItem = PingItem Ping | MissedItem int | LateItem int

text \<open>
  \<open>Math.floor(a / b)\<close>; a divisor of zero gives an infinity or \<open>NaN\<close>.
\<close>

definition floorOfQuotient :: "int \<Rightarrow> int \<Rightarrow> js_number" where
  "floorOfQuotient a b =
     (if b = 0 then (if a > 0 then PosInfinity else if a < 0 then NegInfinity else NaN)
      else Finite (a div b))"

text \<open>\<open>Math.ceil(a / b) - 1\<close>.\<close>

definition ceilOfQuotientMinus1 :: "int \<Rightarrow> int \<Rightarrow> js_number" where
  "ceilOfQuotientMinus1 a b =
     (if b = 0 then (if a > 0 then PosInfinity else if a < 0 then NegInfinity else NaN)
      else Finite (ceilDiv a b - 1))"

text \<open>
  How often \<open>for (let i = 0; i < missedCount; i++)\<close> runs its body; \<open>None\<close> when it never
  stops, which is the case of \<open>Infinity\<close>.
\<close>

definition loopRuns :: "js_number \<Rightarrow> nat option" where
  "loopRuns missedCount =
     (case missedCount of
        Finite n \<Rightarrow> Some (nat n)
      | PosInfinity \<Rightarrow> None
      | NegInfinity \<Rightarrow> Some 0
      | NaN \<Rightarrow> Some 0)"

text \<open>The first block: the markers between the last ping and now.\<close>

definition leadingItems ::
  "(string \<Rightarrow> int option) \<Rightarrow> int \<Rightarrow> Monitor \<Rightarrow> int \<Rightarrow> int \<Rightarrow> DisplayItem list option" where
  "leadingItems parseDate now monitor intervalMs graceMs =
     (case lastPing monitor of
        None \<Rightarrow> Some []
      | Some lp \<Rightarrow>
          if lp = [] then Some []
          else (case parseDate lp of
                  None \<Rightarrow> Some []
                | Some lastPingTime \<Rightarrow>
                    (let timeSinceLastPing = now - lastPingTime
                     in if timeSinceLastPing > intervalMs
                           \<and> timeSinceLastPing \<le> intervalMs + graceMs
                        then Some [LateItem now]
                        else if timeSinceLastPing > intervalMs + graceMs then
                          (case loopRuns (floorOfQuotient (timeSinceLastPing - graceMs) intervalMs) of
                             None \<Rightarrow> None
                           | Some n \<Rightarrow>
                               Some (map (\<lambda>k. MissedItem (now - int k * intervalMs)) [0..<n]))
                        else Some [])))"

text \<open>The markers pushed after ping \<open>p\<close> when \<open>q\<close> is the next, older ping.\<close>

definition gapItems ::
  "(string \<Rightarrow> int option) \<Rightarrow> int \<Rightarrow> int \<Rightarrow> Ping \<Rightarrow> Ping \<Rightarrow> DisplayItem list option" where
  "gapItems parseDate intervalMs graceMs p q =
     (case (parseDate (timestamp p), parseDate (timestamp q)) of
        (Some currentTime, Some nextTime) \<Rightarrow>
          (let gap = currentTime - nextTime
           in if gap > intervalMs + graceMs then
                (case loopRuns (ceilOfQuotientMinus1 gap intervalMs) of
                   None \<Rightarrow> None
                 | Some n \<Rightarrow>
                     Some (map (\<lambda>j. MissedItem (currentTime - (int j + 1) * intervalMs)) [0..<n]))
              else Some [])
      | _ \<Rightarrow> Some [])"

text \<open>The loop over \<open>monitor.pings\<close>.\<close>

fun historyItems ::
  "(string \<Rightarrow> int option) \<Rightarrow> int \<Rightarrow> int \<Rightarrow> Ping list \<Rightarrow> DisplayItem list option" where
  "historyItems parseDate intervalMs graceMs [] = Some []"
| "historyItems parseDate intervalMs graceMs [p] = Some [PingItem p]"
| "historyItems parseDate intervalMs graceMs (p # q # rest) =
     (case gapItems parseDate intervalMs graceMs p q of
        None \<Rightarrow> None
      | Some missed \<Rightarrow>
          (case historyItems parseDate intervalMs graceMs (q # rest) of
             None \<Rightarrow> None
           | Some older \<Rightarrow> Some (PingItem p # missed @ older)))"

text \<open>
  \<open>None\<close>: the function does not return a timeline, one of its loops having no bound (it
  pushes markers until the engine gives up). With an interval
  that is not finite no marker is pushed: the comparisons with \<open>Infinity\<close> and \<open>NaN\<close> fail,
  and with \<open>-Infinity\<close> the counts are zero and \<open>-1\<close>.
\<close>

definition buildPingDisplay ::
  "(string \<Rightarrow> int option) \<Rightarrow> int \<Rightarrow> Monitor \<Rightarrow> DisplayItem list option" where
  "buildPingDisplay parseDate now monitor =
     (let graceMs = graceMinutes monitor * 60 * 1000
      in case minutesToMs (intervalOrParsed monitor) of
           Finite intervalMs \<Rightarrow>
             (case leadingItems parseDate now monitor intervalMs graceMs of
                None \<Rightarrow> None
              | Some leading \<Rightarrow>
                  (case historyItems parseDate intervalMs graceMs (pings monitor) of
                     None \<Rightarrow> None
                   | Some history \<Rightarrow> Some (take 75 (leading @ history))))
         | PosInfinity \<Rightarrow> Some (take 75 (map PingItem (pings monitor)))
         | NegInfinity \<Rightarrow> Some (take 75 (map PingItem (pings monitor)))
         | NaN \<Rightarrow> Some (take 75 (map PingItem (pings monitor))))"

text \<open>An item of the timeline that shows a recorded ping.\<close>

fun isPingItem :: "DisplayItem \<Rightarrow> bool" where
  "isPingItem (PingItem p) = True"
| "isPingItem (MissedItem t) = False"
| "isPingItem (LateItem t) = False"

subsection \<open>The pause fields of a row\<close>

text \<open>
  The invariant of the data model: \<open>paused_at\<close> is set exactly when the row is paused
  (\<open>rowToMonitor\<close> reads \<open>paused\<close> as \<open>paused = 1\<close>), and \<open>pause_reason\<close> and \<open>paused_until\<close> are
  set only when it is paused.
\<close>

definition pauseFieldsConsistent :: "MonitorRow \<Rightarrow> bool" where
  "pauseFieldsConsistent r =
     ((paused_at r \<noteq> None \<longleftrightarrow> paused_col r = 1)
      \<and> (pause_reason r \<noteq> None \<longrightarrow> paused_col r = 1)
      \<and> (paused_until r \<noteq> None \<longrightarrow> paused_col r = 1))"

definition dbConsistent :: "database \<Rightarrow> bool" where
  "dbConsistent db = (\<forall>r\<in>set (monitors db). pauseFieldsConsistent r)"

text \<open>An update that carries none of the four pause fields.\<close>

definition noPauseFields :: "MonitorUpdates \<Rightarrow> bool" where
  "noPauseFields updates =
     (u_paused updates = None \<and> u_pausedAt updates = None \<and> u_pausedUntil updates = None
      \<and> u_pauseReason updates = None)"

subsection \<open>Sample values\<close>

text \<open>
  Concrete values for the examples below: a clock that reads a few timestamps of
  1 January 1970, a monitor with schedule "every 5 minutes" and a grace period of ten
  minutes whose last ping came at midnight, and a database that holds its row.
\<close>

definition sampleParseDate :: "string \<Rightarrow> int option" where
  "sampleParseDate s =
     map_of [(''1970-01-01T00:00:00.000Z'', 0), (''1970-01-01T00:01:00.000Z'', 60000),
             (''1970-01-01T00:20:00.000Z'', 1200000), (''1970-01-01T01:00:00.000Z'', 3600000),
             (''2024-01-15T10:00:00Z'', 1705312800000),
             (''2024-01-15T10:00:00.500Z'', 1705312800500)] s"

definition sampleMonitor :: Monitor where
  "sampleMonitor =
     \<lparr>monitor_id = ''m1'', name = ''backup'', schedule = lit ''every 5 minutes'',
      intervalMinutes = Some (Finite 5), graceMinutes = 10, monitor_status = Healthy,
      lastPing = Some ''1970-01-01T00:00:00.000Z'', nextExpected = None, pings = [],
      createdAt = ''1970-01-01T00:00:00.000Z'', paused = False, pausedAt = None,
      pausedUntil = None, pauseReason = None\<rparr>"

definition samplePausedMonitor :: Monitor where
  "samplePausedMonitor =
     sampleMonitor\<lparr>paused := True, pausedAt := Some ''1970-01-01T00:00:00.000Z'',
                    pausedUntil := Some ''1970-01-01T00:01:00.000Z''\<rparr>"

definition sampleRow :: MonitorRow where
  "sampleRow =
     \<lparr>row_id = ''m1'', row_name = ''backup'', row_schedule = lit ''every 5 minutes'',
      interval_minutes = Finite 5, grace_minutes = 10, last_ping = None,
      created_at = ''1970-01-01T00:00:00.000Z'', paused_col = 0, paused_at = None,
      paused_until = None, pause_reason = None\<rparr>"

definition sampleDb :: database where
  "sampleDb = \<lparr>monitors = [sampleRow], pings_table = []\<rparr>"

text \<open>
  A database for the sweep: \<open>m1\<close> is paused until 00:01, \<open>m2\<close> is paused with no end,
  \<open>m3\<close> is paused until 01:00 and \<open>m4\<close> is not paused.
\<close>

definition sweepDb :: database where
  "sweepDb =
     \<lparr>monitors =
        [sampleRow\<lparr>paused_col := 1, paused_at := Some ''1970-01-01T00:00:00.000Z'',
                   paused_until := Some ''1970-01-01T00:01:00.000Z''\<rparr>,
         sampleRow\<lparr>row_id := ''m2'', paused_col := 1,
                   paused_at := Some ''1970-01-01T00:00:00.000Z'',
                   pause_reason := Some ''maintenance''\<rparr>,
         sampleRow\<lparr>row_id := ''m3'', paused_col := 1,
                   paused_at := Some ''1970-01-01T00:00:00.000Z'',
                   paused_until := Some ''1970-01-01T01:00:00.000Z''\<rparr>,
         sampleRow\<lparr>row_id := ''m4''\<rparr>],
      pings_table = []\<rparr>"

text \<open>
  A monitor paused until ten o'clock on 15 January 2024, the time written without
  milliseconds as the pause route accepts it.
\<close>

definition untilTenDb :: database where
  "untilTenDb =
     \<lparr>monitors =
        [sampleRow\<lparr>paused_col := 1, paused_at := Some ''2024-01-15T09:00:00.000Z'',
                   paused_until := Some ''2024-01-15T10:00:00Z''\<rparr>],
      pings_table = []\<rparr>"

text \<open>An engine that reports a full database for the update of \<open>last_ping\<close>.\<close>

definition updateFails :: StorageFaults where
  "updateFails = \<lparr>insertPing_fault = None, updateLastPing_fault = Some SqliteFull\<rparr>"

text \<open>The update \<open>{ paused: true }\<close> and the update \<open>{ name: "nightly" }\<close>.\<close>

definition pausedOnlyUpdate :: MonitorUpdates where
  "pausedOnlyUpdate =
     \<lparr>u_name = None, u_schedule = None, u_graceMinutes = None, u_lastPing = None,
      u_paused = Some True, u_pausedAt = None, u_pausedUntil = None, u_pauseReason = None\<rparr>"

definition renameUpdate :: MonitorUpdates where
  "renameUpdate =
     \<lparr>u_name = Some ''nightly'', u_schedule = None, u_graceMinutes = None, u_lastPing = None,
      u_paused = None, u_pausedAt = None, u_pausedUntil = None, u_pauseReason = None\<rparr>"

text \<open>
  A monitor for the timeline: pings at 00:20 and at 00:00, the newer one first. And the
  sample monitor with the schedule "every 0 minutes", as \<open>createMonitor\<close> stores it.
\<close>

definition samplePingA :: Ping where
  "samplePingA =
     \<lparr>ping_id = ''pa'', timestamp = ''1970-01-01T00:20:00.000Z'', status = Success,
      duration = None, message = None, ip = None\<rparr>"

definition samplePingB :: Ping where
  "samplePingB =
     \<lparr>ping_id = ''pb'', timestamp = ''1970-01-01T00:00:00.000Z'', status = Failure,
      duration = None, message = None, ip = None\<rparr>"

definition timelineMonitor :: Monitor where
  "timelineMonitor =
     sampleMonitor\<lparr>lastPing := Some ''1970-01-01T00:20:00.000Z'',
                    pings := [samplePingA, samplePingB]\<rparr>"

definition zeroIntervalMonitor :: Monitor where
  "zeroIntervalMonitor =
     sampleMonitor\<lparr>schedule := lit ''every 0 minutes'', intervalMinutes := Some (Finite 0)\<rparr>"

text \<open>
  The database after \<open>createMonitor\<close> with the schedule "every 0 minutes" and one ping at
  midnight, and the monitor that \<open>getMonitor\<close> reads from it an hour later.
\<close>

definition zeroIntervalDb :: database where
  "zeroIntervalDb =
     snd (recordPing noFaults ''p0'' ''1970-01-01T00:00:00.000Z'' ''m0'' True None None None
            (snd (createMonitor ''m0'' ''1970-01-01T00:00:00.000Z'' ''job''
                    (lit ''every 0 minutes'') None \<lparr>monitors = [], pings_table = []\<rparr>)))"

definition zeroIntervalStored :: Monitor where
  "zeroIntervalStored =
     \<lparr>monitor_id = ''m0'', name = ''job'', schedule = lit ''every 0 minutes'',
      intervalMinutes = Some (Finite 0), graceMinutes = 15, monitor_status = Down,
      lastPing = Some ''1970-01-01T00:00:00.000Z'', nextExpected = None,
      pings = [\<lparr>ping_id = ''p0'', timestamp = ''1970-01-01T00:00:00.000Z'', status = Success,
                duration = None, message = None, ip = None\<rparr>],
      createdAt = ''1970-01-01T00:00:00.000Z'', paused = False, pausedAt = None,
      pausedUntil = None, pauseReason = None\<rparr>"

text \<open>
  A request twenty minutes after midnight that takes three milliseconds and comes through a
  proxy, without a body; and the sample monitor as \<open>getMonitor\<close> returns it before its
  first ping.
\<close>

definition sampleEnv :: PingEnv where
  "sampleEnv =
     \<lparr>t_start = 1200000, t_limit = 1200000, t_retry = 1200000, t_status = 1200001,
      t_end = 1200003, env_uuid = ''p1'', env_nowIso = ''1970-01-01T00:20:00.000Z'',
      env_parseDate = sampleParseDate\<rparr>"

definition sampleRequest :: PingRequest where
  "sampleRequest =
     \<lparr>req_headers = [''x-forwarded-for'' \<mapsto> ''203.0.113.7, 10.0.0.1''], hasBody = False,
      parsedBody = JsonFailure\<rparr>"

definition sampleDownMonitor :: Monitor where
  "sampleDownMonitor =
     \<lparr>monitor_id = ''m1'', name = ''backup'', schedule = lit ''every 5 minutes'',
      intervalMinutes = Some (Finite 5), graceMinutes = 10, monitor_status = Down,
      lastPing = None, nextExpected = None, pings = [],
      createdAt = ''1970-01-01T00:00:00.000Z'', paused = False, pausedAt = None,
      pausedUntil = None, pauseReason = None\<rparr>"

section \<open>Properties\<close>

subsection \<open>Status engine\<close>

text \<open>
  C2. A monitor with \<open>paused = true\<close> has status \<open>paused\<close>, whatever \<open>lastPing\<close>,
  \<open>intervalMinutes\<close>, \<open>graceMinutes\<close> and \<open>pausedUntil\<close> are, and whatever the time is: also when
  \<open>pausedUntil\<close> is set and has already elapsed.
\<close>

theorem paused_monitor_reports_paused:
  "paused monitor \<Longrightarrow> getMonitorStatus parseDate now monitor = Paused"
  by (simp add: getMonitorStatus_def split: option.splits)

theorem paused_monitor_reports_paused_witness:
  "paused samplePausedMonitor
   \<and> pausedUntil samplePausedMonitor = Some ''1970-01-01T00:01:00.000Z''
   \<and> sampleParseDate ''1970-01-01T00:01:00.000Z'' = Some 60000
   \<and> getMonitorStatus sampleParseDate 3600000 samplePausedMonitor = Paused"
  using paused_monitor_reports_paused [of samplePausedMonitor sampleParseDate 3600000]
  by (simp add: samplePausedMonitor_def sampleMonitor_def sampleParseDate_def)

text \<open>
  C1. For a monitor that is not paused, whose last ping came at time \<open>T\<close> (milliseconds),
  with a stored interval of \<open>I\<close> minutes and a grace period of \<open>G\<close> minutes, the status is
  healthy for every \<open>now\<close> in \<open>[T, T+I]\<close>, late for every \<open>now\<close> in \<open>(T+I, T+I+G]\<close> and down for
  every \<open>now > T+I+G\<close>; so it is healthy at exactly \<open>T+I\<close> and late, not down, at exactly
  \<open>T+I+G\<close>. The ranges of the data model are assumed: the grace period is not negative,
  and the stored interval is the one the function uses, which it is when it is not zero or
  when the schedule parses to it.
\<close>

theorem status_by_time_since_last_ping:
  assumes "\<not> paused monitor"
    and "lastPing monitor = Some lp" and "lp \<noteq> []" and "parseDate lp = Some T"
    and "intervalMinutes monitor = Some (Finite I)"
    and "I \<noteq> 0 \<or> parseScheduleInterval (schedule monitor) = Finite I"
    and "graceMinutes monitor = G" and "0 \<le> G"
  shows "(T \<le> now \<and> now \<le> T + I * 60000 \<longrightarrow>
            getMonitorStatus parseDate now monitor = Healthy)
       \<and> (T + I * 60000 < now \<and> now \<le> T + I * 60000 + G * 60000 \<longrightarrow>
            getMonitorStatus parseDate now monitor = Late)
       \<and> (T + I * 60000 + G * 60000 < now \<longrightarrow>
            getMonitorStatus parseDate now monitor = Down)"
proof -
  have iv: "intervalOrParsed monitor = Finite I"
    using assms(5,6) by (auto simp: intervalOrParsed_def)
  show ?thesis
    using assms(1-4,7,8) by (simp add: getMonitorStatus_def iv minutesToMs_def Let_def)
qed

theorem status_by_time_since_last_ping_witness:
  "\<not> paused sampleMonitor
   \<and> lastPing sampleMonitor = Some ''1970-01-01T00:00:00.000Z''
   \<and> sampleParseDate ''1970-01-01T00:00:00.000Z'' = Some 0
   \<and> intervalMinutes sampleMonitor = Some (Finite 5) \<and> graceMinutes sampleMonitor = 10
   \<and> getMonitorStatus sampleParseDate 0 sampleMonitor = Healthy
   \<and> getMonitorStatus sampleParseDate 300000 sampleMonitor = Healthy
   \<and> getMonitorStatus sampleParseDate 300001 sampleMonitor = Late
   \<and> getMonitorStatus sampleParseDate 900000 sampleMonitor = Late
   \<and> getMonitorStatus sampleParseDate 900001 sampleMonitor = Down
   \<and> intervalMinutes zeroIntervalMonitor = Some (Finite 0)
   \<and> parseScheduleInterval (schedule zeroIntervalMonitor) = Finite 0
   \<and> getMonitorStatus sampleParseDate 0 zeroIntervalMonitor = Healthy
   \<and> getMonitorStatus sampleParseDate 1 zeroIntervalMonitor = Late
   \<and> getMonitorStatus sampleParseDate 600001 zeroIntervalMonitor = Down"
proof -
  have p0: "parseScheduleInterval (lit ''every 0 minutes'') = Finite 0"
    by code_simp
  have z: "\<not> paused zeroIntervalMonitor"
    "lastPing zeroIntervalMonitor = Some ''1970-01-01T00:00:00.000Z''"
    "''1970-01-01T00:00:00.000Z'' \<noteq> []"
    "sampleParseDate ''1970-01-01T00:00:00.000Z'' = Some 0"
    "intervalMinutes zeroIntervalMonitor = Some (Finite 0)"
    "(0::int) \<noteq> 0 \<or> parseScheduleInterval (schedule zeroIntervalMonitor) = Finite 0"
    "graceMinutes zeroIntervalMonitor = 10" "(0::int) \<le> 10"
    using p0 by (simp_all add: zeroIntervalMonitor_def sampleMonitor_def sampleParseDate_def)
  note tz = status_by_time_since_last_ping
    [where monitor = zeroIntervalMonitor and parseDate = sampleParseDate and T = 0 and I = 0
       and G = 10, OF z]
  have h: "\<not> paused sampleMonitor"
    "lastPing sampleMonitor = Some ''1970-01-01T00:00:00.000Z''"
    "''1970-01-01T00:00:00.000Z'' \<noteq> []"
    "sampleParseDate ''1970-01-01T00:00:00.000Z'' = Some 0"
    "intervalMinutes sampleMonitor = Some (Finite 5)"
    "(5::int) \<noteq> 0 \<or> parseScheduleInterval (schedule sampleMonitor) = Finite 5"
    "graceMinutes sampleMonitor = 10" "(0::int) \<le> 10"
    by (simp_all add: sampleMonitor_def sampleParseDate_def)
  note th = status_by_time_since_last_ping
    [where monitor = sampleMonitor and parseDate = sampleParseDate and T = 0 and I = 5
       and G = 10, OF h]
  show ?thesis
    using h th [of 0] th [of 300000] th [of 300001] th [of 900000] th [of 900001]
      z(5,6) tz [of 0] tz [of 1] tz [of 600001]
    by simp
qed

subsection \<open>Schedule parser\<close>
























text \<open>
  What the number and string primitives of the engine do to the result: a written number
  above \<open>2^53\<close> comes back rounded to a double, a no-break space counts as white space, and
  the Kelvin sign is a \<open>k\<close> in lower case.
\<close>

lemma parseScheduleInterval_rounds:
  "parseScheduleInterval (lit ''every 9007199254740993 minutes'') = Finite 9007199254740992"
  by code_simp

lemma parseScheduleInterval_nbsp:
  "parseScheduleInterval (lit ''every'' @ [160] @ lit ''5 minutes'') = Finite 5"
  by code_simp

lemma parseScheduleInterval_kelvin:
  "parseScheduleInterval (lit ''wee'' @ [8490] @ lit ''ly'') = Finite 10080"
  by code_simp

subsection \<open>Ping recorder\<close>

lemma stmt_getMonitor_Some:
  "stmt_getMonitor i db = Some row \<Longrightarrow> row \<in> set (monitors db) \<and> row_id row = i"
  by (auto simp: stmt_getMonitor_def find_Some_iff)

lemma stmt_getMonitor_None:
  "stmt_getMonitor i db = None \<longleftrightarrow> i \<notin> set (map row_id (monitors db))"
  by (auto simp: stmt_getMonitor_def find_None_iff)

lemma find_updated_row:
  assumes "find (\<lambda>r. row_id r = i) rows = Some row" and "\<And>r. row_id (f r) = row_id r"
  shows "find (\<lambda>r. row_id r = i) (map (\<lambda>r. if row_id r = i then f r else r) rows) = Some (f row)"
  using assms(1)
proof (induction rows)
  case Nil
  then show ?case by simp
next
  case (Cons r rows)
  then show ?case by (simp add: assms(2) split: if_splits)
qed

lemma stmt_getMonitor_lastPing:
  "stmt_getMonitor i db = Some row \<Longrightarrow>
   stmt_getMonitor i (lastPingWritten ts i db) = Some (row\<lparr>last_ping := Some ts\<rparr>)"
  unfolding stmt_getMonitor_def lastPingWritten_def
  using find_updated_row [where f = "\<lambda>r. r\<lparr>last_ping := Some ts\<rparr>"] by simp

lemma getMonitor_lastPing:
  "stmt_getMonitor i db = Some row \<Longrightarrow>
   map_option lastPing (getMonitor parseDate now i db) = Some (last_ping row)"
  by (simp add: getMonitor_def rowToMonitor_def Let_def)

text \<open>The outcomes of \<open>recordPing\<close> on a stored monitor, one for each way the two writes can go.\<close>

lemma recordPing_known:
  assumes "stmt_getMonitor i db = Some row"
  shows "recordPing faults uuid nowIso i success dur msg ipAddr db =
     (case insertPing_fault faults of
        Some e \<Rightarrow> (Inl e, db)
      | None \<Rightarrow>
          if uuid \<in> set (map pr_id (pings_table db)) then (Inl SqliteConstraint, db)
          else (case updateLastPing_fault faults of
                  Some e \<Rightarrow> (Inl e, db)
                | None \<Rightarrow>
                    (Inr (Some \<lparr>ping_id = uuid, timestamp = nowIso,
                                status = (if success then Success else Failure),
                                duration = dur, message = msg, ip = ipAddr\<rparr>),
                     lastPingWritten nowIso i
                       (db\<lparr>pings_table := pings_table db @
                            [\<lparr>pr_id = uuid, pr_monitor_id = i, pr_timestamp = nowIso,
                              pr_status = (if success then Success else Failure),
                              pr_duration = dur, pr_message = msg, pr_ip = ipAddr\<rparr>]\<rparr>))))"
proof -
  have "i \<in> set (map row_id (monitors db))"
    using assms stmt_getMonitor_Some by force
  then show ?thesis
    using assms
    by (simp add: recordPing_def transaction_def run_stmt_def stmt_insertPing_def
        stmt_updateMonitorLastPing_def Let_def split: option.split)
qed

lemma recordPing_success:
  assumes "stmt_getMonitor i db = Some row" and "uuid \<notin> set (map pr_id (pings_table db))"
  shows "recordPing noFaults uuid nowIso i success dur msg ipAddr db =
     (Inr (Some \<lparr>ping_id = uuid, timestamp = nowIso,
                 status = (if success then Success else Failure),
                 duration = dur, message = msg, ip = ipAddr\<rparr>),
      lastPingWritten nowIso i
        (db\<lparr>pings_table := pings_table db @
              [\<lparr>pr_id = uuid, pr_monitor_id = i, pr_timestamp = nowIso,
                pr_status = (if success then Success else Failure), pr_duration = dur,
                pr_message = msg, pr_ip = ipAddr\<rparr>]\<rparr>))"
  using assms(2) by (simp add: recordPing_known [OF assms(1)] noFaults_def)

lemma recordPing_unknown:
  assumes "stmt_getMonitor i db = None"
  shows "recordPing faults uuid nowIso i success dur msg ipAddr db = (Inr None, db)"
  using assms by (simp add: recordPing_def)

text \<open>
  C3. For an existing monitor id, a call of \<open>recordPing\<close> ends in one of two ways. Either it
  throws and the database is what it was before the call: neither write is kept, also when
  the insert has been made and the update of \<open>last_ping\<close> fails. Or it returns a ping that
  carries the generated id, which no stored ping has, and the timestamp read from the
  server's clock; then the database is the one before the call with both writes, the ping's
  row appended and the monitor's \<open>last_ping\<close> set, and the monitor read back has that ping's
  timestamp as its \<open>lastPing\<close>. It throws exactly when the engine fails at one of the two
  writes or the generated id is already stored.
\<close>

theorem recordPing_sets_lastPing:
  assumes "i \<in> set (map row_id (monitors db))"
  shows "((\<exists>e. recordPing faults uuid nowIso i success dur msg ipAddr db = (Inl e, db))
      \<or> (\<exists>ping db'. recordPing faults uuid nowIso i success dur msg ipAddr db
                        = (Inr (Some ping), db')
            \<and> ping_id ping = uuid \<and> uuid \<notin> set (map pr_id (pings_table db))
            \<and> timestamp ping = nowIso
            \<and> db' = lastPingWritten nowIso i
                      (db\<lparr>pings_table := pings_table db @
                           [\<lparr>pr_id = uuid, pr_monitor_id = i, pr_timestamp = nowIso,
                             pr_status = (if success then Success else Failure),
                             pr_duration = dur, pr_message = msg, pr_ip = ipAddr\<rparr>]\<rparr>)
            \<and> pings_table db' = pings_table db @
                   [\<lparr>pr_id = uuid, pr_monitor_id = i, pr_timestamp = nowIso,
                     pr_status = (if success then Success else Failure),
                     pr_duration = dur, pr_message = msg, pr_ip = ipAddr\<rparr>]
            \<and> map_option last_ping (stmt_getMonitor i db') = Some (Some (timestamp ping))
            \<and> map_option lastPing (getMonitor parseDate now i db')
                 = Some (Some (timestamp ping))))
   \<and> ((\<exists>e d. recordPing faults uuid nowIso i success dur msg ipAddr db = (Inl e, d))
        \<longleftrightarrow> insertPing_fault faults \<noteq> None \<or> updateLastPing_fault faults \<noteq> None
              \<or> uuid \<in> set (map pr_id (pings_table db)))"
proof -
  from assms obtain row where row: "stmt_getMonitor i db = Some row"
    using stmt_getMonitor_None by (cases "stmt_getMonitor i db") auto
  let ?pingRow = "\<lparr>pr_id = uuid, pr_monitor_id = i, pr_timestamp = nowIso,
                pr_status = (if success then Success else Failure), pr_duration = dur,
                pr_message = msg, pr_ip = ipAddr\<rparr>"
  let ?db1 = "db\<lparr>pings_table := pings_table db @ [?pingRow]\<rparr>"
  let ?db2 = "lastPingWritten nowIso i ?db1"
  let ?ping = "\<lparr>ping_id = uuid, timestamp = nowIso,
                status = (if success then Success else Failure),
                duration = dur, message = msg, ip = ipAddr\<rparr>"
  note known = recordPing_known [OF row, of faults uuid nowIso success dur msg ipAddr]
  have row1: "stmt_getMonitor i ?db1 = Some row"
    using row by (simp add: stmt_getMonitor_def)
  have after: "stmt_getMonitor i ?db2 = Some (row\<lparr>last_ping := Some nowIso\<rparr>)"
    by (rule stmt_getMonitor_lastPing [OF row1])
  have read: "map_option lastPing (getMonitor parseDate now i ?db2) = Some (Some nowIso)"
    using getMonitor_lastPing [OF after, of parseDate now] by simp
  have tbl: "pings_table ?db2 = pings_table db @ [?pingRow]"
    by (simp add: lastPingWritten_def)
  show ?thesis
  proof (cases "insertPing_fault faults \<noteq> None \<or> updateLastPing_fault faults \<noteq> None
              \<or> uuid \<in> set (map pr_id (pings_table db))")
    case True
    then have "\<exists>e. recordPing faults uuid nowIso i success dur msg ipAddr db = (Inl e, db)"
      unfolding known by (auto split: option.split)
    with True show ?thesis by blast
  next
    case False
    then have r: "recordPing faults uuid nowIso i success dur msg ipAddr db
                    = (Inr (Some ?ping), ?db2)"
      unfolding known by auto
    have "\<exists>ping db'. recordPing faults uuid nowIso i success dur msg ipAddr db
                        = (Inr (Some ping), db')
            \<and> ping_id ping = uuid \<and> uuid \<notin> set (map pr_id (pings_table db))
            \<and> timestamp ping = nowIso
            \<and> db' = ?db2
            \<and> pings_table db' = pings_table db @ [?pingRow]
            \<and> map_option last_ping (stmt_getMonitor i db') = Some (Some (timestamp ping))
            \<and> map_option lastPing (getMonitor parseDate now i db')
                 = Some (Some (timestamp ping))"
      apply (rule exI [of _ ?ping])
      apply (rule exI [of _ ?db2])
      using r False after read tbl apply simp
      done
    moreover have "\<not> (\<exists>e d. recordPing faults uuid nowIso i success dur msg ipAddr db = (Inl e, d))"
      using r by simp
    ultimately show ?thesis using False by blast
  qed
qed

theorem recordPing_sets_lastPing_witness:
  "''m1'' \<in> set (map row_id (monitors sampleDb))
   \<and> (\<exists>ping db'.
         recordPing noFaults ''p1'' ''1970-01-01T00:20:00.000Z'' ''m1'' True None None None sampleDb
           = (Inr (Some ping), db')
         \<and> ping_id ping = ''p1'' \<and> timestamp ping = ''1970-01-01T00:20:00.000Z''
         \<and> map_option last_ping (stmt_getMonitor ''m1'' db')
             = Some (Some ''1970-01-01T00:20:00.000Z'')
         \<and> map_option lastPing (getMonitor sampleParseDate 1200000 ''m1'' db')
             = Some (Some ''1970-01-01T00:20:00.000Z''))
   \<and> recordPing updateFails ''p1'' ''1970-01-01T00:20:00.000Z'' ''m1'' True None None None sampleDb
       = (Inl SqliteFull, sampleDb)"
proof -
  have h: "''m1'' \<in> set (map row_id (monitors sampleDb))"
    by (simp add: sampleDb_def sampleRow_def)
  have fresh: "''p1'' \<notin> set (map pr_id (pings_table sampleDb))"
    by (simp add: sampleDb_def)
  have nf: "insertPing_fault noFaults = None" "updateLastPing_fault noFaults = None"
    by (simp_all add: noFaults_def)
  have uf: "updateLastPing_fault updateFails \<noteq> None"
    by (simp add: updateFails_def)
  from recordPing_sets_lastPing
    [OF h, of noFaults "''p1''" "''1970-01-01T00:20:00.000Z''" True None None None
        sampleParseDate 1200000] fresh nf
  have ok: "\<exists>ping db'.
         recordPing noFaults ''p1'' ''1970-01-01T00:20:00.000Z'' ''m1'' True None None None sampleDb
           = (Inr (Some ping), db')
         \<and> ping_id ping = ''p1'' \<and> timestamp ping = ''1970-01-01T00:20:00.000Z''
         \<and> map_option last_ping (stmt_getMonitor ''m1'' db')
             = Some (Some ''1970-01-01T00:20:00.000Z'')
         \<and> map_option lastPing (getMonitor sampleParseDate 1200000 ''m1'' db')
             = Some (Some ''1970-01-01T00:20:00.000Z'')"
    by fastforce
  from recordPing_sets_lastPing
    [OF h, of updateFails "''p1''" "''1970-01-01T00:20:00.000Z''" True None None None
        sampleParseDate 1200000] uf
  have "\<exists>e. recordPing updateFails ''p1'' ''1970-01-01T00:20:00.000Z'' ''m1'' True None None None
               sampleDb = (Inl e, sampleDb)"
    by fastforce
  moreover have "fst (recordPing updateFails ''p1'' ''1970-01-01T00:20:00.000Z'' ''m1'' True None
                    None None sampleDb) = Inl SqliteFull"
    by code_simp
  ultimately have "recordPing updateFails ''p1'' ''1970-01-01T00:20:00.000Z'' ''m1'' True None
                    None None sampleDb = (Inl SqliteFull, sampleDb)"
    by auto
  with h ok show ?thesis by blast
qed

text \<open>
  C5. For an id that no monitor has, \<open>recordPing\<close> returns \<open>null\<close> (a value, not an
  exception) and leaves the database as it was: no ping row is added and no \<open>last_ping\<close>
  changes.
\<close>

theorem recordPing_unknown_monitor:
  "i \<notin> set (map row_id (monitors db)) \<Longrightarrow>
   recordPing faults uuid nowIso i success dur msg ipAddr db = (Inr None, db)"
  using recordPing_unknown stmt_getMonitor_None by blast

theorem recordPing_unknown_monitor_witness:
  "''m2'' \<notin> set (map row_id (monitors sampleDb))
   \<and> recordPing noFaults ''p1'' ''1970-01-01T00:20:00.000Z'' ''m2'' True None None None sampleDb
       = (Inr None, sampleDb)"
proof -
  have h: "''m2'' \<notin> set (map row_id (monitors sampleDb))"
    by (simp add: sampleDb_def sampleRow_def)
  from recordPing_unknown_monitor [OF h] h show ?thesis by blast
qed

subsection \<open>Pause controller\<close>

lemma resumeEach_eq:
  "resumeEach ids resumed db = (resumed @ ids, fold stmt_resumeMonitor ids db)"
  by (induction ids arbitrary: resumed db) simp_all

lemma fold_resume_monitors:
  "monitors (fold stmt_resumeMonitor ids db) =
     map (\<lambda>r. if row_id r \<in> set ids then resumeRow r else r) (monitors db)"
proof (induction ids arbitrary: db)
  case Nil
  then show ?case by simp
next
  case (Cons i ids)
  have "monitors (fold stmt_resumeMonitor (i # ids) db) =
          map (\<lambda>r. if row_id r \<in> set ids then resumeRow r else r)
            (monitors (stmt_resumeMonitor i db))"
    by (simp add: Cons.IH)
  also have "monitors (stmt_resumeMonitor i db) =
          map (\<lambda>r. if row_id r = i then resumeRow r else r) (monitors db)"
    by (simp add: stmt_resumeMonitor_def)
  finally show ?case by (auto simp: comp_def resumeRow_def)
qed

lemma due_ids_distinct:
  assumes "distinct (map row_id rows)" and "r \<in> set rows"
  shows "row_id r \<in> set (map row_id (filter P rows)) \<longleftrightarrow> P r"
proof
  assume "row_id r \<in> set (map row_id (filter P rows))"
  then obtain r' where r': "r' \<in> set rows" "P r'" "row_id r' = row_id r" by auto
  with assms have "r' = r" by (meson distinct_map inj_onD)
  with r' show "P r" by simp
next
  assume "P r"
  with assms(2) show "row_id r \<in> set (map row_id (filter P rows))" by auto
qed

text \<open>
  What the sweep does, for every reading \<open>now\<close> of the clock: it returns the ids of exactly
  the monitors with \<open>paused = 1\<close>, \<open>paused_until\<close> set and \<open>paused_until <= now\<close>, the two
  compared as texts, which is what the SQL does. With ids being the primary key, it resumes
  those rows and leaves every other row as it was; in particular a row whose \<open>paused_until\<close>
  is absent is unchanged by the sweep, whatever \<open>now\<close> is.
\<close>

lemma sweep_resumes_text_order:
  "fst (checkAndResumeMonitors now db) =
      map row_id
        (filter (\<lambda>r. paused_col r = 1 \<and> (\<exists>u. paused_until r = Some u \<and> u \<le> now))
           (monitors db))
   \<and> (distinct (map row_id (monitors db)) \<longrightarrow>
        monitors (snd (checkAndResumeMonitors now db)) =
          map (\<lambda>r. if paused_col r = 1 \<and> (\<exists>u. paused_until r = Some u \<and> u \<le> now)
                   then r\<lparr>paused_col := 0, paused_at := None, paused_until := None,
                          pause_reason := None\<rparr>
                   else r)
            (monitors db)
        \<and> (\<forall>r\<in>set (monitors db). paused_until r = None \<longrightarrow>
              r \<in> set (monitors (snd (checkAndResumeMonitors now db)))))"
proof -
  have due: "dueForResume now =
      (\<lambda>r. paused_col r = 1 \<and> (\<exists>u. paused_until r = Some u \<and> u \<le> now))"
    by (auto simp: dueForResume_def fun_eq_iff split: option.splits)
  have ids: "fst (checkAndResumeMonitors now db) =
      map row_id (filter (dueForResume now) (monitors db))"
    by (simp add: checkAndResumeMonitors_def resumeEach_eq stmt_getPausedMonitorsToResume_def)
  have rows: "monitors (snd (checkAndResumeMonitors now db)) =
          map (\<lambda>r. if dueForResume now r then resumeRow r else r) (monitors db)"
    if "distinct (map row_id (monitors db))"
  proof -
    have "monitors (snd (checkAndResumeMonitors now db)) =
            map (\<lambda>r. if row_id r \<in> set (map row_id (filter (dueForResume now) (monitors db)))
                      then resumeRow r else r) (monitors db)"
      by (simp add: checkAndResumeMonitors_def resumeEach_eq stmt_getPausedMonitorsToResume_def
            fold_resume_monitors del: set_map)
    also have "\<dots> = map (\<lambda>r. if dueForResume now r then resumeRow r else r) (monitors db)"
      using due_ids_distinct [OF that, of _ "dueForResume now"] by (intro map_cong) simp_all
    finally show ?thesis .
  qed
  have keep: "\<forall>r\<in>set (monitors db). paused_until r = None \<longrightarrow>
                r \<in> set (monitors (snd (checkAndResumeMonitors now db)))"
    if d: "distinct (map row_id (monitors db))"
  proof (intro ballI impI)
    fix r assume r: "r \<in> set (monitors db)" "paused_until r = None"
    then have "\<not> dueForResume now r" by (simp add: dueForResume_def)
    with r(1) show "r \<in> set (monitors (snd (checkAndResumeMonitors now db)))"
      unfolding rows [OF d] by force
  qed
  show ?thesis
    using ids rows keep unfolding due resumeRow_def by blast
qed

lemma sweep_resumes_text_order_example:
  "distinct (map row_id (monitors sweepDb))
   \<and> fst (checkAndResumeMonitors ''1970-01-01T00:20:00.000Z'' sweepDb) = [''m1'']
   \<and> monitors (snd (checkAndResumeMonitors ''1970-01-01T00:20:00.000Z'' sweepDb)) =
        [sampleRow, monitors sweepDb ! 1, monitors sweepDb ! 2, monitors sweepDb ! 3]
   \<and> paused_until (monitors sweepDb ! 1) = None
   \<and> monitors sweepDb ! 1
        \<in> set (monitors (snd (checkAndResumeMonitors ''1970-01-01T00:20:00.000Z'' sweepDb)))"
proof -
  have d: "distinct (map row_id (monitors sweepDb))"
    by (simp add: sweepDb_def sampleRow_def)
  have le: "''1970-01-01T00:01:00.000Z'' \<le> ''1970-01-01T00:20:00.000Z''"
    "\<not> ''1970-01-01T01:00:00.000Z'' \<le> ''1970-01-01T00:20:00.000Z''"
    by code_simp+
  have n: "paused_until (monitors sweepDb ! 1) = None"
    "monitors sweepDb ! 1 \<in> set (monitors sweepDb)"
    by (simp_all add: sweepDb_def sampleRow_def)
  from sweep_resumes_text_order [of "''1970-01-01T00:20:00.000Z''" sweepDb] d n le
  show ?thesis
    by (simp add: sweepDb_def sampleRow_def)
qed

text \<open>
  C4. The sweep does not resume every monitor whose \<open>pausedUntil\<close> is at or before \<open>now\<close>.
  A monitor is paused until \<open>2024-01-15T10:00:00Z\<close>, the time as the pause route accepts and
  stores it. Half a second after ten the clock reads \<open>2024-01-15T10:00:00.500Z\<close>: the pause
  has expired, by the times that \<open>new Date\<close> gives the two texts, yet the sweep returns no
  id and leaves the row paused, because the stored text is the greater one (\<open>Z\<close> comes
  after the full stop). The sweep of the next full second resumes it.
\<close>

theorem sweep_misses_expired_pause:
  "map (\<lambda>r. (row_id r, paused_col r, paused_until r)) (monitors untilTenDb)
      = [(''m1'', 1, Some ''2024-01-15T10:00:00Z'')]
   \<and> sampleParseDate ''2024-01-15T10:00:00Z'' = Some 1705312800000
   \<and> sampleParseDate ''2024-01-15T10:00:00.500Z'' = Some 1705312800500
   \<and> (1705312800000 :: int) \<le> 1705312800500
   \<and> checkAndResumeMonitors ''2024-01-15T10:00:00.500Z'' untilTenDb = ([], untilTenDb)
   \<and> fst (checkAndResumeMonitors ''2024-01-15T10:00:01.000Z'' untilTenDb) = [''m1'']"
  by code_simp

subsection \<open>The pause invariant\<close>

lemma consistent_resume: "dbConsistent db \<Longrightarrow> dbConsistent (stmt_resumeMonitor i db)"
  by (auto simp: dbConsistent_def stmt_resumeMonitor_def pauseFieldsConsistent_def resumeRow_def)

lemma consistent_fold_resume:
  "dbConsistent db \<Longrightarrow> dbConsistent (fold stmt_resumeMonitor ids db)"
  by (induction ids arbitrary: db) (simp_all add: consistent_resume)

lemma consistent_create:
  "dbConsistent db \<Longrightarrow> dbConsistent (snd (createMonitor uuid nowIso nm sched graceOpt db))"
  by (auto simp: createMonitor_def stmt_insertMonitor_def dbConsistent_def
        pauseFieldsConsistent_def Let_def)

lemma consistent_stmt_update:
  assumes "dbConsistent db" and "paused_at d \<noteq> None \<longleftrightarrow> paused_col d = 1"
    and "pause_reason d \<noteq> None \<longrightarrow> paused_col d = 1"
    and "paused_until d \<noteq> None \<longrightarrow> paused_col d = 1"
  shows "dbConsistent (stmt_updateMonitor d db)"
  using assms
  by (auto simp: dbConsistent_def stmt_updateMonitor_def pauseFieldsConsistent_def)

lemma consistent_update:
  assumes "dbConsistent db" and "noPauseFields updates"
  shows "dbConsistent (snd (updateMonitor parseDate now0 now1 i updates db))"
proof (cases "stmt_getMonitor i db")
  case None
  then show ?thesis using assms(1) by (simp add: updateMonitor_def getMonitor_def)
next
  case (Some row)
  then have c: "pauseFieldsConsistent row"
    using assms(1) stmt_getMonitor_Some by (auto simp: dbConsistent_def)
  define existing where
    "existing = rowToMonitor parseDate now0 row (map rowToPing (stmt_getPingsForMonitor i db))"
  have g: "getMonitor parseDate now0 i db = Some existing"
    by (simp add: getMonitor_def Some existing_def)
  have e: "paused existing = (paused_col row = 1)" "pausedAt existing = paused_at row"
    "pausedUntil existing = paused_until row" "pauseReason existing = pause_reason row"
    "intervalMinutes existing = Some (interval_minutes row)"
    by (simp_all add: existing_def rowToMonitor_def Let_def)
  have "\<exists>iv. (case u_schedule updates of
                    Some s \<Rightarrow> if s \<noteq> [] then Some (parseScheduleInterval s)
                              else intervalMinutes existing
                  | None \<Rightarrow> intervalMinutes existing) = Some iv"
    by (simp add: e split: option.split)
  then obtain iv where iv: "(case u_schedule updates of
                    Some s \<Rightarrow> if s \<noteq> [] then Some (parseScheduleInterval s)
                              else intervalMinutes existing
                  | None \<Rightarrow> intervalMinutes existing) = Some iv"
    by blast
  have u: "u_paused updates = None" "u_pausedAt updates = None" "u_pausedUntil updates = None"
    "u_pauseReason updates = None"
    using assms(2) by (simp_all add: noPauseFields_def)
  show ?thesis
    unfolding updateMonitor_def g option.case Let_def iv snd_conv
    using c by (intro consistent_stmt_update [OF assms(1)])
       (simp_all add: u e orElse_def orElseOpt_def pauseFieldsConsistent_def)
qed

lemma consistent_pause:
  "dbConsistent db \<Longrightarrow>
   dbConsistent (snd (pauseMonitor parseDate now0 now1 nowIso i reason until db))"
  by (auto simp: pauseMonitor_def stmt_pauseMonitor_def dbConsistent_def
        pauseFieldsConsistent_def Let_def split: option.splits)

lemma consistent_resumeMonitor:
  "dbConsistent db \<Longrightarrow> dbConsistent (snd (resumeMonitor parseDate now0 now1 i db))"
  by (auto simp: resumeMonitor_def Let_def consistent_resume split: option.splits)

lemma consistent_sweep:
  "dbConsistent db \<Longrightarrow> dbConsistent (snd (checkAndResumeMonitors now db))"
  by (simp add: checkAndResumeMonitors_def resumeEach_eq consistent_fold_resume)

lemma consistent_recordPing:
  "dbConsistent db \<Longrightarrow>
   dbConsistent (snd (recordPing faults uuid nowIso i success dur msg ipAddr db))"
  by (auto simp: recordPing_def transaction_def run_stmt_def stmt_insertPing_def Let_def
        stmt_updateMonitorLastPing_def lastPingWritten_def dbConsistent_def
        pauseFieldsConsistent_def split: option.splits)

text \<open>
  C6, as the code has it. Create, pause, resume, the sweep and record ping keep the
  invariant that \<open>paused_at\<close> is set exactly when the row is paused (with \<open>pause_reason\<close> and
  \<open>paused_until\<close> set only when it is paused). Update keeps it when the update carries none
  of the fields \<open>paused\<close>, \<open>pausedAt\<close>, \<open>pausedUntil\<close> and \<open>pauseReason\<close>, which is the case of
  every update that the PATCH route passes on.
\<close>

theorem operations_keep_pause_invariant:
  assumes "dbConsistent db"
  shows "dbConsistent (snd (createMonitor uuid nowIso nm sched graceOpt db))
     \<and> (noPauseFields updates \<longrightarrow>
          dbConsistent (snd (updateMonitor parseDate now0 now1 i updates db)))
     \<and> dbConsistent (snd (pauseMonitor parseDate now0 now1 nowIso i reason until db))
     \<and> dbConsistent (snd (resumeMonitor parseDate now0 now1 i db))
     \<and> dbConsistent (snd (checkAndResumeMonitors nowIso db))
     \<and> dbConsistent (snd (recordPing faults uuid nowIso i success dur msg ipAddr db))"
proof (intro conjI impI)
  show "dbConsistent (snd (createMonitor uuid nowIso nm sched graceOpt db))"
    using assms by (rule consistent_create)
  show "dbConsistent (snd (updateMonitor parseDate now0 now1 i updates db))"
    if "noPauseFields updates"
    using assms that by (rule consistent_update)
  show "dbConsistent (snd (pauseMonitor parseDate now0 now1 nowIso i reason until db))"
    using assms by (rule consistent_pause)
  show "dbConsistent (snd (resumeMonitor parseDate now0 now1 i db))"
    using assms by (rule consistent_resumeMonitor)
  show "dbConsistent (snd (checkAndResumeMonitors nowIso db))"
    using assms by (rule consistent_sweep)
  show "dbConsistent (snd (recordPing faults uuid nowIso i success dur msg ipAddr db))"
    using assms by (rule consistent_recordPing)
qed

theorem operations_keep_pause_invariant_witness:
  "dbConsistent sweepDb \<and> noPauseFields renameUpdate
   \<and> dbConsistent (snd (createMonitor ''m5'' ''1970-01-01T00:20:00.000Z'' ''report''
                            (lit ''daily'') None sweepDb))
   \<and> dbConsistent (snd (updateMonitor sampleParseDate 0 0 ''m1'' renameUpdate sweepDb))
   \<and> dbConsistent (snd (pauseMonitor sampleParseDate 0 0 ''1970-01-01T00:20:00.000Z'' ''m4''
                            (Some ''maintenance'') None sweepDb))
   \<and> dbConsistent (snd (resumeMonitor sampleParseDate 0 0 ''m2'' sweepDb))
   \<and> dbConsistent (snd (checkAndResumeMonitors ''1970-01-01T00:20:00.000Z'' sweepDb))
   \<and> dbConsistent (snd (recordPing noFaults ''m5'' ''1970-01-01T00:20:00.000Z'' ''m1''
                            True None None None sweepDb))"
proof -
  have h: "dbConsistent sweepDb"
    by (simp add: dbConsistent_def pauseFieldsConsistent_def sweepDb_def sampleRow_def)
  have u: "noPauseFields renameUpdate"
    by (simp add: noPauseFields_def renameUpdate_def)
  from operations_keep_pause_invariant
    [OF h, of "''m5''" "''1970-01-01T00:20:00.000Z''" "''report''" "lit ''daily''" None
       renameUpdate sampleParseDate 0 0 "''m1''"] h u
  have "dbConsistent (snd (createMonitor ''m5'' ''1970-01-01T00:20:00.000Z'' ''report''
                            (lit ''daily'') None sweepDb))
     \<and> dbConsistent (snd (updateMonitor sampleParseDate 0 0 ''m1'' renameUpdate sweepDb))
     \<and> dbConsistent (snd (checkAndResumeMonitors ''1970-01-01T00:20:00.000Z'' sweepDb))
     \<and> dbConsistent (snd (recordPing noFaults ''m5'' ''1970-01-01T00:20:00.000Z'' ''m1''
                            True None None None sweepDb))"
    by blast
  moreover from operations_keep_pause_invariant [OF h]
  have "dbConsistent (snd (pauseMonitor sampleParseDate 0 0 ''1970-01-01T00:20:00.000Z'' ''m4''
                            (Some ''maintenance'') None sweepDb))"
    by blast
  moreover from operations_keep_pause_invariant [OF h]
  have "dbConsistent (snd (resumeMonitor sampleParseDate 0 0 ''m2'' sweepDb))"
    by blast
  ultimately show ?thesis using h u by blast
qed

text \<open>
  \<open>updateMonitor\<close> writes \<open>paused\<close> and \<open>pausedAt\<close> independently of each other: the update
  \<open>{ paused: true }\<close> on a monitor that is not paused stores \<open>paused = 1\<close> with
  \<open>paused_at\<close> still \<open>NULL\<close>.
\<close>

theorem update_can_break_pause_invariant:
  "dbConsistent sampleDb
   \<and> \<not> dbConsistent (snd (updateMonitor sampleParseDate 0 0 ''m1'' pausedOnlyUpdate sampleDb))"
  by (simp add: dbConsistent_def pauseFieldsConsistent_def sampleDb_def sampleRow_def
        updateMonitor_def getMonitor_def stmt_getMonitor_def rowToMonitor_def Let_def
        pausedOnlyUpdate_def orElse_def orElseOpt_def stmt_updateMonitor_def)

subsection \<open>Timeline\<close>

lemma ceilDiv_ceiling: "ceilDiv a b = \<lceil>real_of_int a / real_of_int b\<rceil>"
  by (simp add: ceilDiv_def ceiling_divide_eq_div)

lemma floor_div: "a div b = \<lfloor>real_of_int a / real_of_int b\<rfloor>" for a b :: int
  by (simp add: floor_divide_of_int_eq)

lemma leading_returns:
  "iv \<noteq> 0 \<Longrightarrow> \<exists>leading. leadingItems pd now m iv gr = Some leading
      \<and> (\<forall>x\<in>set leading. \<not> isPingItem x)"
  by (auto simp: leadingItems_def Let_def floorOfQuotient_def loopRuns_def split: option.splits)

lemma leading_missed:
  assumes "lastPing m = Some lp" "lp \<noteq> []" "pd lp = Some T" "now - T > iv + gr" "0 < iv"
  shows "leadingItems pd now m iv gr =
           Some (map (\<lambda>k. MissedItem (now - int k * iv)) [0..<nat ((now - T - gr) div iv)])"
    and "1 \<le> (now - T - gr) div iv"
proof -
  show "leadingItems pd now m iv gr =
           Some (map (\<lambda>k. MissedItem (now - int k * iv)) [0..<nat ((now - T - gr) div iv)])"
    using assms by (simp add: leadingItems_def Let_def floorOfQuotient_def loopRuns_def)
  have "iv \<le> now - T - gr" using assms(4) by simp
  then have "iv div iv \<le> (now - T - gr) div iv"
    using assms(5) by (rule zdiv_mono1)
  then show "1 \<le> (now - T - gr) div iv"
    using assms(5) by simp
qed

lemma gap_returns:
  "iv \<noteq> 0 \<Longrightarrow> \<exists>g. gapItems pd iv gr p q = Some g \<and> (\<forall>x\<in>set g. \<not> isPingItem x)"
  by (auto simp: gapItems_def Let_def ceilOfQuotientMinus1_def loopRuns_def split: option.splits)

lemma gap_missed:
  assumes "pd (timestamp p) = Some a" "pd (timestamp q) = Some b" "a - b > iv + gr" "0 < iv" "0 \<le> gr"
  shows "gapItems pd iv gr p q =
           Some (map (\<lambda>j. MissedItem (a - (int j + 1) * iv)) [0..<nat (ceilDiv (a - b) iv - 1)])"
    and "1 \<le> ceilDiv (a - b) iv - 1"
proof -
  show "gapItems pd iv gr p q =
           Some (map (\<lambda>j. MissedItem (a - (int j + 1) * iv)) [0..<nat (ceilDiv (a - b) iv - 1)])"
    using assms by (simp add: gapItems_def Let_def ceilOfQuotientMinus1_def loopRuns_def)
  have "iv < a - b" using assms(3,5) by simp
  then have "real_of_int (a - b) / real_of_int iv > 1"
    using assms(4) by simp
  then have "\<lceil>real_of_int (a - b) / real_of_int iv\<rceil> \<ge> 2"
    by linarith
  then show "1 \<le> ceilDiv (a - b) iv - 1"
    by (simp add: ceilDiv_ceiling)
qed

lemma history_returns:
  "iv \<noteq> 0 \<Longrightarrow> \<exists>h. historyItems pd iv gr ps = Some h \<and> filter isPingItem h = map PingItem ps"
proof (induction pd iv gr ps rule: historyItems.induct)
  case (1 pd iv gr)
  then show ?case by simp
next
  case (2 pd iv gr p)
  then show ?case by simp
next
  case (3 pd iv gr p q rest)
  obtain g where g: "gapItems pd iv gr p q = Some g" "\<forall>x\<in>set g. \<not> isPingItem x"
    using gap_returns [OF "3.prems"] by blast
  obtain h where h: "historyItems pd iv gr (q # rest) = Some h"
      "filter isPingItem h = map PingItem (q # rest)"
    using "3.IH" [OF g(1) "3.prems"] by blast
  from g h show ?case by simp
qed

lemma history_head:
  "historyItems pd iv gr (q # rest) = Some h \<Longrightarrow> \<exists>after. h = PingItem q # after"
  by (cases rest) (auto split: option.splits)

lemma history_between:
  assumes "0 < iv" "0 \<le> gr"
    and "pd (timestamp p) = Some a" "pd (timestamp q) = Some b" "a - b > iv + gr"
    and "historyItems pd iv gr (pre @ p # q # post) = Some h"
  shows "\<exists>before after.
           h = before @ PingItem p
                 # map (\<lambda>j. MissedItem (a - (int j + 1) * iv)) [0..<nat (ceilDiv (a - b) iv - 1)]
                 @ PingItem q # after
           \<and> filter isPingItem before = map PingItem pre"
  using assms(6)
proof (induction pre arbitrary: h)
  case Nil
  obtain older where o: "historyItems pd iv gr (q # post) = Some older"
    using history_returns [of iv pd gr "q # post"] assms(1) by auto
  then obtain after where "older = PingItem q # after"
    using history_head by blast
  with Nil o gap_missed(1) [where pd = pd, OF assms(3,4,5,1,2)]
  have "h = [] @ PingItem p
                 # map (\<lambda>j. MissedItem (a - (int j + 1) * iv)) [0..<nat (ceilDiv (a - b) iv - 1)]
                 @ PingItem q # after"
    by simp
  moreover have "filter isPingItem [] = map PingItem []" by simp
  ultimately show ?case by blast
next
  case (Cons x pre)
  obtain y ys where ys: "pre @ p # q # post = y # ys"
    by (cases pre) auto
  obtain g where g: "gapItems pd iv gr x y = Some g" "\<forall>x\<in>set g. \<not> isPingItem x"
    using gap_returns [of iv pd gr x y] assms(1) by auto
  obtain older where o: "historyItems pd iv gr (pre @ p # q # post) = Some older"
    using history_returns [of iv pd gr "pre @ p # q # post"] assms(1) by auto
  from Cons.IH [OF o] obtain before after where
    b: "older = before @ PingItem p
                 # map (\<lambda>j. MissedItem (a - (int j + 1) * iv)) [0..<nat (ceilDiv (a - b) iv - 1)]
                 @ PingItem q # after"
       "filter isPingItem before = map PingItem pre"
    by blast
  have "h = PingItem x # g @ older"
    using Cons.prems g o ys by simp
  then have "h = (PingItem x # g @ before) @ PingItem p
                 # map (\<lambda>j. MissedItem (a - (int j + 1) * iv)) [0..<nat (ceilDiv (a - b) iv - 1)]
                 @ PingItem q # after"
    using b(1) by simp
  moreover have "filter isPingItem (PingItem x # g @ before) = map PingItem (x # pre)"
    using g(2) b(2) by simp
  ultimately show ?case by blast
qed

lemma pings_descending:
  "sorted (rev (map pr_timestamp (stmt_getPingsForMonitor i db)))"
proof -
  let ?s = "sort_key pr_timestamp (rev (filter (\<lambda>p. pr_monitor_id p = i) (pings_table db)))"
  have "rev (map pr_timestamp (take 75 (rev ?s))) = map pr_timestamp (drop (length ?s - 75) ?s)"
    by (simp add: take_rev rev_map [symmetric] del: length_sort)
  moreover have "sorted (map pr_timestamp (drop (length ?s - 75) ?s))"
    by (simp add: drop_map [symmetric] sorted_wrt_drop del: length_sort)
  ultimately show ?thesis by (simp add: stmt_getPingsForMonitor_def)
qed

lemma getMonitor_pings:
  "getMonitor pd now i db = Some m \<Longrightarrow>
   sorted (rev (map timestamp (pings m))) \<and> length (pings m) \<le> 75"
proof -
  assume "getMonitor pd now i db = Some m"
  then have p: "pings m = map rowToPing (stmt_getPingsForMonitor i db)"
    by (auto simp: getMonitor_def rowToMonitor_def Let_def split: option.splits)
  have "map timestamp (pings m) = map pr_timestamp (stmt_getPingsForMonitor i db)"
    by (simp add: p rowToPing_def comp_def)
  then have "sorted (rev (map timestamp (pings m)))"
    using pings_descending [of i db] by (simp only:)
  moreover have "length (pings m) \<le> 75"
    by (simp add: p stmt_getPingsForMonitor_def)
  ultimately show ?thesis by blast
qed

text \<open>
  The timeline of a monitor with a positive interval and a grace period that is not
  negative: \<open>buildPingDisplay\<close> returns, and what it returns is the first 75 items of the
  leading markers followed by the history. The leading markers are no pings; the pings of
  the history are \<open>monitor.pings\<close> in their order, which is descending by timestamp for a
  monitor read from the database (lemma \<open>getMonitor_pings\<close>). When the gap between now and the
  last ping exceeds interval + grace, the leading markers are \<open>floor((gap - grace) / interval)\<close>
  missed markers; when the gap between two consecutive pings exceeds interval + grace,
  exactly \<open>ceil(gap / interval) - 1\<close> missed markers stand between the two pings in the
  history. (All in milliseconds, as the code computes.)
\<close>

lemma buildPingDisplay_positive_interval:
  assumes "intervalOrParsed monitor = Finite iv" and "0 < iv" and "0 \<le> graceMinutes monitor"
    and "intervalMs = iv * 60 * 1000"
    and "graceMs = graceMinutes monitor * 60 * 1000"
  shows "\<exists>leading history.
      leadingItems pd now monitor intervalMs graceMs = Some leading
    \<and> historyItems pd intervalMs graceMs (pings monitor) = Some history
    \<and> buildPingDisplay pd now monitor = Some (take 75 (leading @ history))
    \<and> length (take 75 (leading @ history)) \<le> 75
    \<and> (\<forall>x\<in>set leading. \<not> isPingItem x)
    \<and> filter isPingItem history = map PingItem (pings monitor)
    \<and> (\<forall>lp T. lastPing monitor = Some lp \<and> lp \<noteq> [] \<and> pd lp = Some T
           \<and> now - T > intervalMs + graceMs \<longrightarrow>
          leading = map (\<lambda>k. MissedItem (now - int k * intervalMs)) [0..<length leading]
          \<and> int (length leading)
              = \<lfloor>real_of_int (now - T - graceMs) / real_of_int intervalMs\<rfloor>)
    \<and> (\<forall>pre p q post a b.
          pings monitor = pre @ p # q # post \<and> pd (timestamp p) = Some a
           \<and> pd (timestamp q) = Some b \<and> a - b > intervalMs + graceMs \<longrightarrow>
          (\<exists>before missed after.
              history = before @ PingItem p # missed @ PingItem q # after
            \<and> filter isPingItem before = map PingItem pre
            \<and> missed = map (\<lambda>j. MissedItem (a - (int j + 1) * intervalMs)) [0..<length missed]
            \<and> int (length missed)
                = \<lceil>real_of_int (a - b) / real_of_int intervalMs\<rceil> - 1))"
proof -
  have iv: "0 < intervalMs" using assms(2,4) by simp
  have gr: "0 \<le> graceMs" using assms(3,5) by simp
  obtain leading where l: "leadingItems pd now monitor intervalMs graceMs = Some leading"
      "\<forall>x\<in>set leading. \<not> isPingItem x"
    using leading_returns [of intervalMs pd now monitor graceMs] iv by auto
  obtain history where h: "historyItems pd intervalMs graceMs (pings monitor) = Some history"
      "filter isPingItem history = map PingItem (pings monitor)"
    using history_returns [of intervalMs pd graceMs "pings monitor"] iv by auto
  have b: "buildPingDisplay pd now monitor = Some (take 75 (leading @ history))"
    using l(1) h(1) assms(1,4,5) by (simp add: buildPingDisplay_def minutesToMs_def Let_def)
  have lead: "\<forall>lp T. lastPing monitor = Some lp \<and> lp \<noteq> [] \<and> pd lp = Some T
           \<and> now - T > intervalMs + graceMs \<longrightarrow>
          leading = map (\<lambda>k. MissedItem (now - int k * intervalMs)) [0..<length leading]
          \<and> int (length leading)
              = \<lfloor>real_of_int (now - T - graceMs) / real_of_int intervalMs\<rfloor>"
  proof (intro allI impI, elim conjE)
    fix lp T
    assume t: "lastPing monitor = Some lp" "lp \<noteq> []" "pd lp = Some T"
      "now - T > intervalMs + graceMs"
    let ?n = "(now - T - graceMs) div intervalMs"
    have e: "leading = map (\<lambda>k. MissedItem (now - int k * intervalMs)) [0..<nat ?n]"
      using leading_missed(1) [where pd = pd, OF t iv] l(1) by simp
    have "1 \<le> ?n" by (rule leading_missed(2) [where pd = pd, OF t iv])
    then have "int (length leading) = ?n" by (simp add: e)
    then have n: "int (length leading)
              = \<lfloor>real_of_int (now - T - graceMs) / real_of_int intervalMs\<rfloor>"
      using floor_div [of "now - T - graceMs" intervalMs] by (simp only:)
    have "leading = map (\<lambda>k. MissedItem (now - int k * intervalMs)) [0..<length leading]"
      using e by simp
    with n show "leading = map (\<lambda>k. MissedItem (now - int k * intervalMs)) [0..<length leading]
          \<and> int (length leading)
              = \<lfloor>real_of_int (now - T - graceMs) / real_of_int intervalMs\<rfloor>"
      by (rule conjI [rotated])
  qed
  have between: "\<forall>pre p q post a b.
          pings monitor = pre @ p # q # post \<and> pd (timestamp p) = Some a
           \<and> pd (timestamp q) = Some b \<and> a - b > intervalMs + graceMs \<longrightarrow>
          (\<exists>before missed after.
              history = before @ PingItem p # missed @ PingItem q # after
            \<and> filter isPingItem before = map PingItem pre
            \<and> missed = map (\<lambda>j. MissedItem (a - (int j + 1) * intervalMs)) [0..<length missed]
            \<and> int (length missed)
                = \<lceil>real_of_int (a - b) / real_of_int intervalMs\<rceil> - 1)"
  proof (intro allI impI, elim conjE)
    fix pre p q post a b
    assume t: "pings monitor = pre @ p # q # post" "pd (timestamp p) = Some a"
       "pd (timestamp q) = Some b" "a - b > intervalMs + graceMs"
    let ?n = "ceilDiv (a - b) intervalMs - 1"
    let ?missed = "map (\<lambda>j. MissedItem (a - (int j + 1) * intervalMs)) [0..<nat ?n]"
    have hh: "historyItems pd intervalMs graceMs (pre @ p # q # post) = Some history"
      using h(1) t(1) by simp
    obtain before after where ba:
      "history = before @ PingItem p # ?missed @ PingItem q # after"
      "filter isPingItem before = map PingItem pre"
      using history_between [where pd = pd, OF iv gr t(2,3,4) hh] by blast
    have "1 \<le> ?n" by (rule gap_missed(2) [where pd = pd, OF t(2,3,4) iv gr])
    then have "int (length ?missed) = ?n" by simp
    then have n: "int (length ?missed) = \<lceil>real_of_int (a - b) / real_of_int intervalMs\<rceil> - 1"
      using ceilDiv_ceiling [of "a - b" intervalMs] by (simp only:)
    have m: "?missed = map (\<lambda>j. MissedItem (a - (int j + 1) * intervalMs)) [0..<length ?missed]"
      by simp
    show "\<exists>before missed after.
              history = before @ PingItem p # missed @ PingItem q # after
            \<and> filter isPingItem before = map PingItem pre
            \<and> missed = map (\<lambda>j. MissedItem (a - (int j + 1) * intervalMs)) [0..<length missed]
            \<and> int (length missed)
                = \<lceil>real_of_int (a - b) / real_of_int intervalMs\<rceil> - 1"
      apply (rule exI [of _ before])
      apply (rule exI [of _ ?missed])
      apply (rule exI [of _ after])
      apply (intro conjI)
         apply (rule ba(1))
        apply (rule ba(2))
       apply (rule m)
      apply (rule n)
      done
  qed
  have len: "length (take 75 (leading @ history)) \<le> 75" by simp
  show ?thesis
    apply (rule exI [of _ leading])
    apply (rule exI [of _ history])
    apply (intro conjI)
           apply (rule l(1))
          apply (rule h(1))
         apply (rule b)
        apply (rule len)
       apply (rule l(2))
      apply (rule h(2))
     apply (rule lead)
    apply (rule between)
    done
qed

lemma buildPingDisplay_positive_interval_example:
  "intervalOrParsed timelineMonitor = Finite 5 \<and> 0 \<le> graceMinutes timelineMonitor
   \<and> lastPing timelineMonitor = Some ''1970-01-01T00:20:00.000Z''
   \<and> sampleParseDate ''1970-01-01T00:20:00.000Z'' = Some 1200000
   \<and> pings timelineMonitor = [] @ samplePingA # samplePingB # []
   \<and> sampleParseDate (timestamp samplePingA) = Some 1200000
   \<and> sampleParseDate (timestamp samplePingB) = Some 0
   \<and> buildPingDisplay sampleParseDate 3600000 timelineMonitor =
        Some [MissedItem 3600000, MissedItem 3300000, MissedItem 3000000, MissedItem 2700000,
              MissedItem 2400000, MissedItem 2100000, PingItem samplePingA,
              MissedItem 900000, MissedItem 600000, MissedItem 300000, PingItem samplePingB]
   \<and> (\<exists>leading history.
         buildPingDisplay sampleParseDate 3600000 timelineMonitor
           = Some (take 75 (leading @ history))
         \<and> int (length leading) = 6
         \<and> (\<exists>before missed after.
               history = before @ PingItem samplePingA # missed @ PingItem samplePingB # after
               \<and> int (length missed) = 3))"
proof -
  have h1: "intervalOrParsed timelineMonitor = Finite 5"
    by (simp add: intervalOrParsed_def timelineMonitor_def sampleMonitor_def)
  have h1p: "0 < (5::int)" by simp
  have h2: "0 \<le> graceMinutes timelineMonitor"
    by (simp add: timelineMonitor_def sampleMonitor_def)
  have iv: "300000 = (5::int) * 60 * 1000" by simp
  have gr: "600000 = graceMinutes timelineMonitor * 60 * 1000"
    by (simp add: timelineMonitor_def sampleMonitor_def)
  have lp: "lastPing timelineMonitor = Some ''1970-01-01T00:20:00.000Z''
      \<and> ''1970-01-01T00:20:00.000Z'' \<noteq> []
      \<and> sampleParseDate ''1970-01-01T00:20:00.000Z'' = Some 1200000
      \<and> 3600000 - 1200000 > (300000::int) + 600000"
    by (simp add: timelineMonitor_def sampleMonitor_def sampleParseDate_def)
  have ps: "pings timelineMonitor = [] @ samplePingA # samplePingB # []
      \<and> sampleParseDate (timestamp samplePingA) = Some 1200000
      \<and> sampleParseDate (timestamp samplePingB) = Some 0
      \<and> 1200000 - 0 > (300000::int) + 600000"
    by (simp add: timelineMonitor_def sampleMonitor_def sampleParseDate_def samplePingA_def
          samplePingB_def)
  have ev: "buildPingDisplay sampleParseDate 3600000 timelineMonitor =
        Some [MissedItem 3600000, MissedItem 3300000, MissedItem 3000000, MissedItem 2700000,
              MissedItem 2400000, MissedItem 2100000, PingItem samplePingA,
              MissedItem 900000, MissedItem 600000, MissedItem 300000, PingItem samplePingB]"
    by code_simp
  from buildPingDisplay_positive_interval
    [where monitor = timelineMonitor and pd = sampleParseDate and now = 3600000 and iv = 5
       and intervalMs = 300000 and graceMs = 600000, OF h1 h1p h2 iv gr]
  obtain leading history where
    b: "buildPingDisplay sampleParseDate 3600000 timelineMonitor
          = Some (take 75 (leading @ history))"
    and L: "\<forall>lp T. lastPing timelineMonitor = Some lp \<and> lp \<noteq> [] \<and> sampleParseDate lp = Some T
           \<and> 3600000 - T > (300000::int) + 600000 \<longrightarrow>
          leading = map (\<lambda>k. MissedItem (3600000 - int k * 300000)) [0..<length leading]
          \<and> int (length leading)
              = \<lfloor>real_of_int (3600000 - T - 600000) / real_of_int 300000\<rfloor>"
    and B: "\<forall>pre p q post a b.
          pings timelineMonitor = pre @ p # q # post \<and> sampleParseDate (timestamp p) = Some a
           \<and> sampleParseDate (timestamp q) = Some b \<and> a - b > (300000::int) + 600000 \<longrightarrow>
          (\<exists>before missed after.
              history = before @ PingItem p # missed @ PingItem q # after
            \<and> filter isPingItem before = map PingItem pre
            \<and> missed = map (\<lambda>j. MissedItem (a - (int j + 1) * 300000)) [0..<length missed]
            \<and> int (length missed)
                = \<lceil>real_of_int (a - b) / real_of_int 300000\<rceil> - 1)"
    by (elim exE conjE) (rule that)
  have n: "int (length leading) = 6"
    using L [rule_format, OF lp] by simp
  obtain before missed after where
    m: "history = before @ PingItem samplePingA # missed @ PingItem samplePingB # after"
       "int (length missed) = \<lceil>real_of_int (1200000 - 0) / real_of_int 300000\<rceil> - 1"
    using B [rule_format, OF ps] by (elim exE conjE) (rule that)
  have m3: "int (length missed) = 3"
    using m(2) by simp
  have "\<exists>leading history.
         buildPingDisplay sampleParseDate 3600000 timelineMonitor
           = Some (take 75 (leading @ history))
         \<and> int (length leading) = 6
         \<and> (\<exists>before missed after.
               history = before @ PingItem samplePingA # missed @ PingItem samplePingB # after
               \<and> int (length missed) = 3)"
    using b n m(1) m3 by blast
  with h1 h2 lp ps ev show ?thesis by simp
qed

text \<open>
  C7. The timeline is not always cut to 75 entries: for some monitors none comes back. The
  monitor created with the schedule "every 0 minutes" and pinged once at midnight is read
  an hour later. Its interval is zero, the gap of an hour exceeds interval + grace, the
  count \<open>floor((gap - grace) / interval)\<close> of missed markers is \<open>Infinity\<close>, and the loop that
  pushes them has no end: \<open>buildPingDisplay\<close> returns no timeline.
\<close>

theorem buildPingDisplay_zero_interval:
  "getMonitor sampleParseDate 3600000 ''m0'' zeroIntervalDb = Some zeroIntervalStored
   \<and> intervalOrParsed zeroIntervalStored = Finite 0
   \<and> floorOfQuotient (3600000 - 0 - graceMinutes zeroIntervalStored * 60 * 1000) 0 = PosInfinity
   \<and> buildPingDisplay sampleParseDate 3600000 zeroIntervalStored = None"
  by code_simp

subsection \<open>Ping route\<close>

lemma getMonitor_Some_row:
  "getMonitor pd now i db = Some m \<Longrightarrow> \<exists>row. stmt_getMonitor i db = Some row"
  by (auto simp: getMonitor_def split: option.splits)

lemma getMonitor_exists:
  "stmt_getMonitor i db = Some row \<Longrightarrow> \<exists>m. getMonitor pd now i db = Some m"
  by (simp add: getMonitor_def)

text \<open>
  C9, as the code has it. A GET request for a known monitor that the rate limiter lets
  through (the generated ping id being fresh) is answered with status 200, the plain text
  \<open>OK\<close> and content type \<open>text/plain\<close>, and records one success ping with no message, with
  the handler's elapsed milliseconds as its duration and with the client address that
  \<open>getClientIp\<close> reads from the \<open>x-forwarded-for\<close> and \<open>x-real-ip\<close> headers as its ip.
\<close>

theorem GET_ping_records_success_ping:
  assumes "allowed (fst (checkRateLimit (t_limit env) i rl))"
    and "i \<in> set (map row_id (monitors db))"
    and "env_uuid env \<notin> set (map pr_id (pings_table db))"
  shows "\<exists>resp rl' db'. GET_ping env request i rl db = (Inr resp, rl', db')
     \<and> code resp = 200 \<and> body resp = PlainBody ''OK''
     \<and> (''Content-Type'', Text ''text/plain'') \<in> set (headers resp)
     \<and> pings_table db' = pings_table db @
          [\<lparr>pr_id = env_uuid env, pr_monitor_id = i, pr_timestamp = env_nowIso env,
            pr_status = Success, pr_duration = Some (t_end env - t_start env),
            pr_message = None, pr_ip = getClientIp (req_headers request)\<rparr>]"
proof -
  obtain row where row: "stmt_getMonitor i db = Some row"
    using assms(2) stmt_getMonitor_None by (cases "stmt_getMonitor i db") auto
  obtain m where m: "getMonitor (env_parseDate env) (t_status env) i db = Some m"
    using getMonitor_exists [OF row] by blast
  obtain res rl' where c: "checkRateLimit (t_limit env) i rl = (res, rl')"
    by (cases "checkRateLimit (t_limit env) i rl")
  with assms(1) have a: "allowed res" by simp
  show ?thesis
    using recordPing_success [OF row assms(3), of "env_nowIso env" True
            "Some (t_end env - t_start env)" None "getClientIp (req_headers request)"]
    by (simp add: GET_ping_def Let_def c a m lastPingWritten_def)
qed

theorem GET_ping_records_success_ping_witness:
  "allowed (fst (checkRateLimit (t_limit sampleEnv) ''m1'' Map.empty))
   \<and> ''m1'' \<in> set (map row_id (monitors sampleDb))
   \<and> env_uuid sampleEnv \<notin> set (map pr_id (pings_table sampleDb))
   \<and> (\<exists>resp rl' db'. GET_ping sampleEnv sampleRequest ''m1'' Map.empty sampleDb = (Inr resp, rl', db')
        \<and> code resp = 200 \<and> body resp = PlainBody ''OK''
        \<and> pings_table db' =
            [\<lparr>pr_id = ''p1'', pr_monitor_id = ''m1'', pr_timestamp = ''1970-01-01T00:20:00.000Z'',
              pr_status = Success, pr_duration = Some 3, pr_message = None,
              pr_ip = Some ''203.0.113.7''\<rparr>])"
proof -
  have h1: "allowed (fst (checkRateLimit (t_limit sampleEnv) ''m1'' Map.empty))"
    by (simp add: checkRateLimit_def Let_def)
  have h2: "''m1'' \<in> set (map row_id (monitors sampleDb))"
    by (simp add: sampleDb_def sampleRow_def)
  have h3: "env_uuid sampleEnv \<notin> set (map pr_id (pings_table sampleDb))"
    by (simp add: sampleDb_def)
  have v: "env_uuid sampleEnv = ''p1''" "env_nowIso sampleEnv = ''1970-01-01T00:20:00.000Z''"
    "t_end sampleEnv - t_start sampleEnv = 3" "pings_table sampleDb = []"
    by (simp_all add: sampleEnv_def sampleDb_def)
  have ipv: "getClientIp (req_headers sampleRequest) = Some ''203.0.113.7''"
    by (simp add: getClientIp_def nonEmpty_def trim_def isSpaceChar_def isSpace_def sampleRequest_def)
  from GET_ping_records_success_ping [OF h1 h2 h3, of sampleRequest]
  have "\<exists>resp rl' db'. GET_ping sampleEnv sampleRequest ''m1'' Map.empty sampleDb = (Inr resp, rl', db')
        \<and> code resp = 200 \<and> body resp = PlainBody ''OK''
        \<and> pings_table db' =
            [\<lparr>pr_id = ''p1'', pr_monitor_id = ''m1'', pr_timestamp = ''1970-01-01T00:20:00.000Z'',
              pr_status = Success, pr_duration = Some 3, pr_message = None,
              pr_ip = Some ''203.0.113.7''\<rparr>]"
    unfolding v ipv by auto
  with h1 h2 h3 show ?thesis by simp
qed

text \<open>
  The sample request takes three milliseconds and carries an \<open>x-forwarded-for\<close> header:
  the stored ping has a duration and an ip.
\<close>

theorem GET_ping_stores_duration_and_ip:
  "fst (GET_ping sampleEnv sampleRequest ''m1'' Map.empty sampleDb) =
      Inr \<lparr>code = 200, body = PlainBody ''OK'',
           headers = [(''Content-Type'', Text ''text/plain''), (''X-Ping-ID'', Text ''p1''),
                      (''X-RateLimit-Remaining'', Number 4),
                      (''X-RateLimit-Reset'', Number 1260)]\<rparr>
   \<and> pings_table (snd (snd (GET_ping sampleEnv sampleRequest ''m1'' Map.empty sampleDb))) =
      [\<lparr>pr_id = ''p1'', pr_monitor_id = ''m1'', pr_timestamp = ''1970-01-01T00:20:00.000Z'',
        pr_status = Success, pr_duration = Some 3, pr_message = None,
        pr_ip = Some ''203.0.113.7''\<rparr>]"
  by code_simp

text \<open>
  C10. For a POST request on an existing monitor that is accepted (let through by the rate
  limiter, with no body or a valid one, the generated ping id being fresh), the
  \<open>monitor.status\<close> of the JSON response is the status of the monitor that \<open>getMonitor\<close>
  read from the database before the ping was recorded; so a monitor that was down is
  reported as down in the response to the very ping that sets its \<open>lastPing\<close>.
\<close>

theorem POST_ping_reports_status_before_ping:
  assumes "allowed (fst (checkRateLimit (t_limit env) i rl))"
    and "getMonitor (env_parseDate env) (t_status env) i db = Some monitor"
    and "(if hasBody request then parsedBody request else ValidBody True None None)
           = ValidBody success dur msg"
    and "env_uuid env \<notin> set (map pr_id (pings_table db))"
  shows "\<exists>resp rl' db'. POST_ping env request i rl db = (Inr resp, rl', db')
     \<and> code resp = 200
     \<and> body resp = PingBody (Some (env_uuid env)) (monitor_id monitor) (name monitor)
                      (monitor_status monitor)
     \<and> (monitor_status monitor = Down \<longrightarrow>
          body resp = PingBody (Some (env_uuid env)) (monitor_id monitor) (name monitor) Down)
     \<and> map_option lastPing (getMonitor (env_parseDate env) (t_status env) i db')
          = Some (Some (env_nowIso env))"
proof -
  obtain row where row: "stmt_getMonitor i db = Some row"
    using getMonitor_Some_row [OF assms(2)] by blast
  obtain res rl' where c: "checkRateLimit (t_limit env) i rl = (res, rl')"
    by (cases "checkRateLimit (t_limit env) i rl")
  with assms(1) have a: "allowed res" by simp
  let ?db' = "lastPingWritten (env_nowIso env) i
        (db\<lparr>pings_table := pings_table db @
              [\<lparr>pr_id = env_uuid env, pr_monitor_id = i, pr_timestamp = env_nowIso env,
                pr_status = (if success then Success else Failure), pr_duration = dur,
                pr_message = msg, pr_ip = getClientIp (req_headers request)\<rparr>]\<rparr>)"
  have "stmt_getMonitor i ?db' = Some (row\<lparr>last_ping := Some (env_nowIso env)\<rparr>)"
    using row by (intro stmt_getMonitor_lastPing) (simp add: stmt_getMonitor_def)
  then have lp: "map_option lastPing (getMonitor (env_parseDate env) (t_status env) i ?db')
          = Some (Some (env_nowIso env))"
    by (simp add: getMonitor_def rowToMonitor_def Let_def)
  show ?thesis
    using recordPing_success [OF row assms(4), of "env_nowIso env" success dur msg
            "getClientIp (req_headers request)"] lp
    by (simp add: POST_ping_def Let_def c a assms(2,3))
qed

theorem POST_ping_reports_status_before_ping_witness:
  "allowed (fst (checkRateLimit (t_limit sampleEnv) ''m1'' Map.empty))
   \<and> getMonitor (env_parseDate sampleEnv) (t_status sampleEnv) ''m1'' sampleDb
        = Some sampleDownMonitor
   \<and> monitor_status sampleDownMonitor = Down
   \<and> (if hasBody sampleRequest then parsedBody sampleRequest else ValidBody True None None)
        = ValidBody True None None
   \<and> env_uuid sampleEnv \<notin> set (map pr_id (pings_table sampleDb))
   \<and> (\<exists>resp rl' db'.
         POST_ping sampleEnv sampleRequest ''m1'' Map.empty sampleDb = (Inr resp, rl', db')
         \<and> code resp = 200
         \<and> body resp = PingBody (Some ''p1'') ''m1'' ''backup'' Down
         \<and> map_option lastPing (getMonitor (env_parseDate sampleEnv) (t_status sampleEnv) ''m1'' db')
              = Some (Some ''1970-01-01T00:20:00.000Z''))
   \<and> map_option monitor_status
        (getMonitor (env_parseDate sampleEnv) (t_status sampleEnv) ''m1''
           (snd (snd (POST_ping sampleEnv sampleRequest ''m1'' Map.empty sampleDb))))
       = Some Healthy"
proof -
  have after: "map_option monitor_status
        (getMonitor (env_parseDate sampleEnv) (t_status sampleEnv) ''m1''
           (snd (snd (POST_ping sampleEnv sampleRequest ''m1'' Map.empty sampleDb))))
       = Some Healthy"
    by code_simp
  have h1: "allowed (fst (checkRateLimit (t_limit sampleEnv) ''m1'' Map.empty))"
    by (simp add: checkRateLimit_def Let_def)
  have h2: "getMonitor (env_parseDate sampleEnv) (t_status sampleEnv) ''m1'' sampleDb
        = Some sampleDownMonitor"
    by (simp add: getMonitor_def stmt_getMonitor_def stmt_getPingsForMonitor_def
          rowToMonitor_def getMonitorStatus_def Let_def sampleDb_def sampleRow_def
          sampleDownMonitor_def)
  have h3: "(if hasBody sampleRequest then parsedBody sampleRequest else ValidBody True None None)
        = ValidBody True None None"
    by (simp add: sampleRequest_def)
  have h4: "env_uuid sampleEnv \<notin> set (map pr_id (pings_table sampleDb))"
    by (simp add: sampleDb_def)
  have d: "monitor_status sampleDownMonitor = Down"
    by (simp add: sampleDownMonitor_def)
  have v: "env_uuid sampleEnv = ''p1''" "env_nowIso sampleEnv = ''1970-01-01T00:20:00.000Z''"
    "monitor_id sampleDownMonitor = ''m1''" "name sampleDownMonitor = ''backup''"
    by (simp_all add: sampleEnv_def sampleDownMonitor_def)
  from POST_ping_reports_status_before_ping [OF h1 h2 h3 h4]
  have "\<exists>resp rl' db'.
         POST_ping sampleEnv sampleRequest ''m1'' Map.empty sampleDb = (Inr resp, rl', db')
         \<and> code resp = 200
         \<and> body resp = PingBody (Some ''p1'') ''m1'' ''backup'' Down
         \<and> map_option lastPing (getMonitor (env_parseDate sampleEnv) (t_status sampleEnv) ''m1'' db')
              = Some (Some ''1970-01-01T00:20:00.000Z'')"
    unfolding v d by auto
  with h1 h2 h3 h4 d after show ?thesis by simp
qed

end
